theory Spec2Isabelle
  imports Complex_Main "HOL-Library.Multiset" "HOL-Library.Sublist"
begin

section \<open>Data model of the schedule optimiser\<close>

text \<open>
  The optimiser of \<^verbatim>\<open>lib/genetic_algo.py\<close> and \<^verbatim>\<open>lib/gemini_ai.py\<close> works on Python
  dictionaries. An entity dictionary always carries \<^verbatim>\<open>id\<close>; every other key is read with
  \<^verbatim>\<open>.get\<close> and a default, so it is an optional field here. A gene is the dictionary
  built by \<^verbatim>\<open>create_individual\<close> (six keys) or by the fallback scheduler (the same keys
  without \<^verbatim>\<open>entity_name\<close>, hence the optional field).
\<close>

datatype py_error =
  IndexError | KeyError | ZeroDivisionError | ValueError | TypeError | JSONDecodeError | OtherError

record entity =
  ent_id :: string
  ent_name :: "string option"
  ent_duration :: "int option"
  capacity_needed :: "int option"

record gene =
  entity_id :: string
  entity_name :: "string option"
  day :: string
  time :: string
  room :: string
  duration :: int

type_synonym individual = "gene list"

text \<open>
  The configuration dictionary. Every key is optional in the source: the genetic
  algorithm fills its tunables with \<^verbatim>\<open>setdefault\<close> and reads the resource lists with
  \<^verbatim>\<open>.get\<close> and a default list. Probabilities and rates are Python floats; they are held
  here as the rationals they denote.
\<close>

record config =
  population_size :: "int option"
  generations :: "int option"
  crossover_prob :: "rat option"
  mutation_prob :: "rat option"
  tournament_size :: "int option"
  elitism_rate :: "rat option"
  mutation_strategy :: "string option"
  days :: "string list option"
  time_slots :: "string list option"
  rooms :: "string list option"
  room_capacities :: "(string \<rightharpoonup> int) option"

definition get_or :: "'a option \<Rightarrow> 'a \<Rightarrow> 'a" where
  "get_or v d = (case v of None \<Rightarrow> d | Some x \<Rightarrow> x)"

section \<open>Constraint checkers of the fitness evaluator\<close>



text \<open>
  \<^verbatim>\<open>get_room_capacity\<close>: the configured map, or a built-in table of five rooms when the
  configuration has no \<^verbatim>\<open>room_capacities\<close> key; a room the chosen table lacks gets 30.
\<close>

definition default_room_capacities :: "string \<rightharpoonup> int" where
  "default_room_capacities =
     [''R101'' \<mapsto> 30, ''R102'' \<mapsto> 50, ''R103'' \<mapsto> 100, ''R104'' \<mapsto> 40, ''R105'' \<mapsto> 60]"

definition get_room_capacity :: "config \<Rightarrow> string \<Rightarrow> int" where
  "get_room_capacity cfg r =
     (let capacities = get_or (room_capacities cfg) default_room_capacities
      in get_or (capacities r) 30)"

text \<open>
  \<^verbatim>\<open>check_room_capacity\<close>: the owning entity is the first entity with the gene's id; a
  gene without one is skipped.
\<close>

definition exceeds_capacity :: "config \<Rightarrow> entity list \<Rightarrow> gene \<Rightarrow> bool" where
  "exceeds_capacity cfg entities slot =
     (case find (\<lambda>e. ent_id e = entity_id slot) entities of
        None \<Rightarrow> False
      | Some e \<Rightarrow> get_or (capacity_needed e) 0 > get_room_capacity cfg (room slot))"

fun check_room_capacity :: "config \<Rightarrow> entity list \<Rightarrow> individual \<Rightarrow> nat" where
  "check_room_capacity cfg entities [] = 0"
| "check_room_capacity cfg entities (slot # rest) =
     (if exceeds_capacity cfg entities slot then 1 else 0) + check_room_capacity cfg entities rest"

text \<open>
  \<^verbatim>\<open>check_availability\<close>: the genes of the constraint's entity whose key
  \<^verbatim>\<open>day_time\<close> is listed as unavailable. \<open>availability_fitness\<close> is what
  \<^verbatim>\<open>evaluate_fitness\<close> computes when the constraint list is the single constraint
  \<^verbatim>\<open>{type: availability, entity_id: e, unavailable_slots: u}\<close>, with the default weight
  90 and the default (weighted) fitness method: \<^verbatim>\<open>max(1000.0 - violations * 90, 0)\<close>.
\<close>

definition check_availability :: "string \<Rightarrow> string list \<Rightarrow> individual \<Rightarrow> nat" where
  "check_availability e unavailable ind =
     length (filter (\<lambda>slot. entity_id slot = e \<and> (day slot @ ''_'' @ time slot) \<in> set unavailable) ind)"

definition availability_fitness :: "string \<Rightarrow> string list \<Rightarrow> individual \<Rightarrow> rat" where
  "availability_fitness e unavailable ind =
     max (1000 - of_nat (check_availability e unavailable ind) * 90) 0"

section \<open>Round-robin fallback scheduler\<close>

text \<open>
  \<^verbatim>\<open>_generate_fallback_schedule\<close> of \<^verbatim>\<open>lib/gemini_ai.py\<close>. The three resource lists
  come from the configuration, with the scheduler's own default lists. The loop keeps
  the counters \<^verbatim>\<open>day_idx\<close>, \<^verbatim>\<open>time_idx\<close>, \<^verbatim>\<open>room_idx\<close>; reading
  \<^verbatim>\<open>days[day_idx % len(days)]\<close> with an empty list divides by zero.
\<close>

definition fallback_days :: "config \<Rightarrow> string list" where
  "fallback_days cfg =
     get_or (days cfg) [''Monday'', ''Tuesday'', ''Wednesday'', ''Thursday'', ''Friday'']"

definition fallback_time_slots :: "config \<Rightarrow> string list" where
  "fallback_time_slots cfg =
     get_or (time_slots cfg)
       [''09:00'', ''10:00'', ''11:00'', ''12:00'', ''14:00'', ''15:00'', ''16:00'']"

definition fallback_rooms :: "config \<Rightarrow> string list" where
  "fallback_rooms cfg = get_or (rooms cfg) [''R101'', ''R102'', ''R103'', ''R104'']"

definition cyclic_get :: "'a list \<Rightarrow> nat \<Rightarrow> py_error + 'a" where
  "cyclic_get xs i = (if length xs = 0 then Inl ZeroDivisionError else Inr (xs ! (i mod length xs)))"

definition fallback_gene ::
  "string list \<Rightarrow> string list \<Rightarrow> string list \<Rightarrow> entity \<Rightarrow> nat \<Rightarrow> nat \<Rightarrow> nat \<Rightarrow> py_error + gene" where
  "fallback_gene ds ts rs e day_idx time_idx room_idx =
     (case cyclic_get ds day_idx of Inl err \<Rightarrow> Inl err | Inr d \<Rightarrow>
      case cyclic_get ts time_idx of Inl err \<Rightarrow> Inl err | Inr t \<Rightarrow>
      case cyclic_get rs room_idx of Inl err \<Rightarrow> Inl err | Inr r \<Rightarrow>
        Inr \<lparr>entity_id = ent_id e, entity_name = None, day = d, time = t, room = r,
             duration = get_or (ent_duration e) 1\<rparr>)"

definition next_slot :: "nat \<Rightarrow> nat \<Rightarrow> nat \<times> nat \<times> nat \<Rightarrow> nat \<times> nat \<times> nat" where
  "next_slot nt nr idx =
     (case idx of (day_idx, time_idx, room_idx) \<Rightarrow>
        let room_idx = room_idx + 1;
            (room_idx, time_idx) = (if room_idx \<ge> nr then (0, time_idx + 1) else (room_idx, time_idx));
            (time_idx, day_idx) = (if time_idx \<ge> nt then (0, day_idx + 1) else (time_idx, day_idx))
        in (day_idx, time_idx, room_idx))"

fun fallback_loop ::
  "string list \<Rightarrow> string list \<Rightarrow> string list \<Rightarrow> entity list \<Rightarrow> nat \<times> nat \<times> nat \<Rightarrow>
   gene list \<Rightarrow> py_error + gene list" where
  "fallback_loop ds ts rs [] idx schedule = Inr schedule"
| "fallback_loop ds ts rs (e # es) idx schedule =
     (case idx of (day_idx, time_idx, room_idx) \<Rightarrow>
        case fallback_gene ds ts rs e day_idx time_idx room_idx of
          Inl err \<Rightarrow> Inl err
        | Inr g \<Rightarrow> fallback_loop ds ts rs es (next_slot (length ts) (length rs) idx) (schedule @ [g]))"

definition generate_fallback_schedule :: "entity list \<Rightarrow> config \<Rightarrow> py_error + gene list" where
  "generate_fallback_schedule entities cfg =
     fallback_loop (fallback_days cfg) (fallback_time_slots cfg) (fallback_rooms cfg)
       entities (0, 0, 0) []"

definition triple :: "gene \<Rightarrow> string \<times> string \<times> string" where
  "triple g = (day g, time g, room g)"

text \<open>
  Closed form of the three counters after \<open>k\<close> entities, and of the gene the loop
  builds for the entity at index \<open>k\<close>; used to state and prove what the loop computes.
\<close>

definition slot_at :: "nat \<Rightarrow> nat \<Rightarrow> nat \<Rightarrow> nat \<times> nat \<times> nat" where
  "slot_at nt nr k = (k div (nt * nr), (k div nr) mod nt, k mod nr)"

definition gene_at :: "string list \<Rightarrow> string list \<Rightarrow> string list \<Rightarrow> nat \<Rightarrow> entity \<Rightarrow> gene" where
  "gene_at ds ts rs k e =
     \<lparr>entity_id = ent_id e, entity_name = None,
      day = ds ! ((k div (length ts * length rs)) mod length ds),
      time = ts ! ((k div length rs) mod length ts),
      room = rs ! (k mod length rs),
      duration = get_or (ent_duration e) 1\<rparr>"

section \<open>Random choices\<close>

text \<open>
  The genetic algorithm draws from Python's \<^verbatim>\<open>random\<close> module. The model threads the
  generator through every call as the list of raw draws still to come (a draw from the
  exhausted list is 0), so a run is a function of its draws and a statement about every
  list of draws is a statement about every run. A computation either raises or returns
  a value and the remaining draws.
\<close>

type_synonym rng = "nat list"

type_synonym 'a rand = "rng \<Rightarrow> py_error + ('a \<times> rng)"

definition ret :: "'a \<Rightarrow> 'a rand" where
  "ret x = (\<lambda>s. Inr (x, s))"

definition raise :: "py_error \<Rightarrow> 'a rand" where
  "raise e = (\<lambda>s. Inl e)"

definition bind :: "'a rand \<Rightarrow> ('a \<Rightarrow> 'b rand) \<Rightarrow> 'b rand" where
  "bind m f = (\<lambda>s. case m s of Inl e \<Rightarrow> Inl e | Inr (x, s') \<Rightarrow> f x s')"

fun draw :: "rng \<Rightarrow> nat \<times> rng" where
  "draw [] = (0, [])"
| "draw (r # rs) = (r, rs)"

definition next_draw :: "nat rand" where
  "next_draw = (\<lambda>s. Inr (draw s))"

text \<open>\<^verbatim>\<open>random.choice(seq)\<close>: IndexError on an empty sequence.\<close>

definition random_choice :: "'a list \<Rightarrow> 'a rand" where
  "random_choice xs =
     (if xs = [] then raise IndexError
      else bind next_draw (\<lambda>r. ret (xs ! (r mod length xs))))"

text \<open>\<^verbatim>\<open>random.random()\<close>: a multiple of \<open>2 ^ -53\<close> in \<open>[0, 1)\<close>.\<close>

definition random_random :: "rat rand" where
  "random_random = bind next_draw (\<lambda>r. ret (of_nat (r mod 2 ^ 53) / 2 ^ 53))"

text \<open>\<^verbatim>\<open>random.randint(a, b)\<close>: ValueError on an empty range.\<close>

definition random_randint :: "int \<Rightarrow> int \<Rightarrow> int rand" where
  "random_randint a b =
     (if b < a then raise ValueError
      else bind next_draw (\<lambda>r. ret (a + int (r mod nat (b - a + 1)))))"

text \<open>
  \<^verbatim>\<open>random.sample(range(n), 2)\<close>: two different indices below \<open>n\<close>, every ordered
  pair of different indices being a possible outcome; ValueError when \<open>n < 2\<close>.
\<close>

definition random_sample2 :: "nat \<Rightarrow> (nat \<times> nat) rand" where
  "random_sample2 n =
     (if n < 2 then raise ValueError
      else bind next_draw (\<lambda>r1. bind next_draw (\<lambda>r2.
             let i = r1 mod n; j = r2 mod (n - 1)
             in ret (i, if j \<ge> i then j + 1 else j))))"

fun repeatM :: "nat \<Rightarrow> 'a rand \<Rightarrow> 'a list rand" where
  "repeatM 0 m = ret []"
| "repeatM (Suc n) m = bind m (\<lambda>x. bind (repeatM n m) (\<lambda>xs. ret (x # xs)))"

fun mapM :: "('a \<Rightarrow> 'b rand) \<Rightarrow> 'a list \<Rightarrow> 'b list rand" where
  "mapM f [] = ret []"
| "mapM f (x # xs) = bind (f x) (\<lambda>y. bind (mapM f xs) (\<lambda>ys. ret (y # ys)))"

section \<open>The genetic algorithm\<close>

text \<open>
  \<^verbatim>\<open>ScheduleGA.__init__\<close>: tunables are filled with \<^verbatim>\<open>setdefault\<close>; the resource
  lists are read with the genetic algorithm's own default lists.
\<close>

definition ga_population_size :: "config \<Rightarrow> int" where
  "ga_population_size cfg = get_or (population_size cfg) 100"

definition ga_generations :: "config \<Rightarrow> int" where
  "ga_generations cfg = get_or (generations cfg) 500"

definition ga_crossover_prob :: "config \<Rightarrow> rat" where
  "ga_crossover_prob cfg = get_or (crossover_prob cfg) (7 / 10)"

definition ga_mutation_prob :: "config \<Rightarrow> rat" where
  "ga_mutation_prob cfg = get_or (mutation_prob cfg) (1 / 10)"

definition ga_tournament_size :: "config \<Rightarrow> int" where
  "ga_tournament_size cfg = get_or (tournament_size cfg) 3"

definition ga_elitism_rate :: "config \<Rightarrow> rat" where
  "ga_elitism_rate cfg = get_or (elitism_rate cfg) (1 / 10)"

definition ga_mutation_strategy :: "config \<Rightarrow> string" where
  "ga_mutation_strategy cfg = get_or (mutation_strategy cfg) ''swap''"

definition ga_days :: "config \<Rightarrow> string list" where
  "ga_days cfg =
     get_or (days cfg) [''Monday'', ''Tuesday'', ''Wednesday'', ''Thursday'', ''Friday'']"

definition ga_time_slots :: "config \<Rightarrow> string list" where
  "ga_time_slots cfg =
     get_or (time_slots cfg)
       [''08:00'', ''09:00'', ''10:00'', ''11:00'', ''12:00'', ''13:00'', ''14:00'', ''15:00'',
        ''16:00'', ''17:00'']"

definition ga_rooms :: "config \<Rightarrow> string list" where
  "ga_rooms cfg = get_or (rooms cfg) [''R101'', ''R102'', ''R103'', ''R104'', ''R105'']"

definition config_used_of :: "config \<Rightarrow> config" where
  "config_used_of cfg =
     cfg\<lparr>population_size := Some (ga_population_size cfg),
         generations := Some (ga_generations cfg),
         crossover_prob := Some (ga_crossover_prob cfg),
         mutation_prob := Some (ga_mutation_prob cfg),
         tournament_size := Some (ga_tournament_size cfg),
         elitism_rate := Some (ga_elitism_rate cfg),
         mutation_strategy := Some (ga_mutation_strategy cfg)\<rparr>"

text \<open>
  \<^verbatim>\<open>create_individual\<close>: one gene per entity, in the order of the entity list; day,
  time and room by three calls of \<^verbatim>\<open>random.choice\<close> in this order.
\<close>

definition create_gene :: "config \<Rightarrow> entity \<Rightarrow> gene rand" where
  "create_gene cfg e =
     bind (random_choice (ga_days cfg)) (\<lambda>d.
     bind (random_choice (ga_time_slots cfg)) (\<lambda>t.
     bind (random_choice (ga_rooms cfg)) (\<lambda>r.
       ret \<lparr>entity_id = ent_id e, entity_name = Some (get_or (ent_name e) (ent_id e)),
            day = d, time = t, room = r, duration = get_or (ent_duration e) 2\<rparr>)))"

definition create_individual :: "config \<Rightarrow> entity list \<Rightarrow> individual rand" where
  "create_individual cfg entities = mapM (create_gene cfg) entities"


text \<open>\<^verbatim>\<open>toolbox.population(n)\<close> is \<^verbatim>\<open>tools.initRepeat(list, create_individual, n)\<close>.\<close>

definition toolbox_population :: "config \<Rightarrow> entity list \<Rightarrow> int \<Rightarrow> individual list rand" where
  "toolbox_population cfg entities n = repeatM (nat n) (create_individual cfg entities)"

text \<open>
  \<^verbatim>\<open>mutate_schedule\<close>. The swap strategy exchanges the two list elements, that is the
  two gene dictionaries as wholes; shift and random overwrite fields of one gene.
\<close>

definition mutate_swap :: "individual \<Rightarrow> individual rand" where
  "mutate_swap individual =
     (if length individual \<ge> 2
      then bind (random_sample2 (length individual)) (\<lambda>(i, j).
             ret (individual[i := individual ! j, j := individual ! i]))
      else ret individual)"

definition mutate_shift :: "config \<Rightarrow> individual \<Rightarrow> individual rand" where
  "mutate_shift cfg individual =
     bind (random_randint 0 (int (length individual) - 1)) (\<lambda>idx.
     bind (random_choice [''day'', ''time'', ''room'']) (\<lambda>mutation_type.
       if mutation_type = ''day''
       then bind (random_choice (ga_days cfg)) (\<lambda>d.
              ret (individual[nat idx := (individual ! nat idx)\<lparr>day := d\<rparr>]))
       else if mutation_type = ''time''
       then bind (random_choice (ga_time_slots cfg)) (\<lambda>t.
              ret (individual[nat idx := (individual ! nat idx)\<lparr>time := t\<rparr>]))
       else bind (random_choice (ga_rooms cfg)) (\<lambda>r.
              ret (individual[nat idx := (individual ! nat idx)\<lparr>room := r\<rparr>]))))"

definition mutate_random :: "config \<Rightarrow> individual \<Rightarrow> individual rand" where
  "mutate_random cfg individual =
     bind (random_randint 0 (int (length individual) - 1)) (\<lambda>idx.
     bind (random_choice (ga_days cfg)) (\<lambda>d.
     bind (random_choice (ga_time_slots cfg)) (\<lambda>t.
     bind (random_choice (ga_rooms cfg)) (\<lambda>r.
       ret (individual[nat idx := (individual ! nat idx)\<lparr>day := d, time := t, room := r\<rparr>])))))"

definition mutate_schedule :: "config \<Rightarrow> individual \<Rightarrow> individual rand" where
  "mutate_schedule cfg individual =
     bind random_random (\<lambda>u.
       if u < ga_mutation_prob cfg then
         (let strategy = ga_mutation_strategy cfg in
          if strategy = ''swap'' then mutate_swap individual
          else if strategy = ''shift'' then mutate_shift cfg individual
          else if strategy = ''random'' then mutate_random cfg individual
          else ret individual)
       else ret individual)"

section \<open>Operators of the evolutionary toolkit\<close>

text \<open>
  The evolution loop calls operators of the DEAP library (\<^verbatim>\<open>tools.cxTwoPoint\<close>,
  \<^verbatim>\<open>tools.selTournament\<close>, \<^verbatim>\<open>tools.selBest\<close>, \<^verbatim>\<open>tools.HallOfFame\<close>,
  \<^verbatim>\<open>tools.Statistics\<close>), whose code is not part of the repository's sources. They are
  modelled from the specification's description of the evolution controller, with the
  library's documented behaviour where the specification is silent (which cut points
  are drawn, which of several equally fit individuals wins).

  Fitness values are Python floats; they are held as rationals, and the fitness of an
  individual is read as \<open>evaluate ind\<close> for the evaluation function \<open>evaluate\<close> the
  toolbox registers: the loop assigns \<^verbatim>\<open>ind.fitness.values\<close> to every individual at the
  top of each generation, before any operator reads a fitness. The evaluation function
  is a parameter of the loop and is taken to return a value for every individual.
\<close>

text \<open>
  Modelled from the spec: \<^verbatim>\<open>tools.cxTwoPoint\<close> is not among the sources. "Pick two cut
  indices over the fixed-length genome and swap the middle segment of Assignments
  between the pair." The first cut is drawn from \<open>1..size\<close>, the second from
  \<open>1..size - 1\<close> and moved past the first; the positions from the smaller cut up to the
  larger one are exchanged.
\<close>

definition splice :: "nat \<Rightarrow> nat \<Rightarrow> 'a list \<Rightarrow> 'a list \<Rightarrow> 'a list" where
  "splice a b xs ys = take a xs @ take (b - a) (drop a ys) @ drop b xs"

definition cxTwoPoint :: "individual \<Rightarrow> individual \<Rightarrow> (individual \<times> individual) rand" where
  "cxTwoPoint ind1 ind2 =
     (let size = int (min (length ind1) (length ind2)) in
      bind (random_randint 1 size) (\<lambda>cxpoint1.
      bind (random_randint 1 (size - 1)) (\<lambda>cxpoint2.
        let (a, b) = (if cxpoint2 \<ge> cxpoint1 then (cxpoint1, cxpoint2 + 1)
                      else (cxpoint2, cxpoint1))
        in ret (splice (nat a) (nat b) ind1 ind2, splice (nat a) (nat b) ind2 ind1))))"

text \<open>
  Modelled from the spec: \<^verbatim>\<open>tools.selTournament\<close> is not among the sources. "Repeatedly
  sample tournament_size Individuals uniformly with replacement from the current
  Population and keep the fittest; repeat population_size times." Of several fittest
  aspirants the first drawn is kept; an empty tournament has no fittest element.
\<close>

definition fittest :: "(individual \<Rightarrow> rat) \<Rightarrow> individual list \<Rightarrow> individual rand" where
  "fittest evaluate aspirants =
     (case aspirants of
        [] \<Rightarrow> raise ValueError
      | a # as \<Rightarrow> ret (foldl (\<lambda>best x. if evaluate x > evaluate best then x else best) a as))"

definition selTournament ::
  "(individual \<Rightarrow> rat) \<Rightarrow> individual list \<Rightarrow> nat \<Rightarrow> int \<Rightarrow> individual list rand" where
  "selTournament evaluate individuals k tournsize =
     repeatM k (bind (repeatM (nat tournsize) (random_choice individuals)) (fittest evaluate))"

text \<open>
  Modelled from the spec: \<^verbatim>\<open>tools.selBest\<close> is not among the sources. "Take the top
  elite_count Individuals (by fitness)": the first \<open>k\<close> of the population sorted by
  descending fitness, equally fit individuals keeping their order.
\<close>

definition selBest :: "(individual \<Rightarrow> rat) \<Rightarrow> individual list \<Rightarrow> nat \<Rightarrow> individual list" where
  "selBest evaluate individuals k = take k (sort_key (\<lambda>ind. - evaluate ind) individuals)"

text \<open>
  Modelled from the spec: \<^verbatim>\<open>tools.HallOfFame\<close> is not among the sources. "Update the
  hall-of-fame (size 1) if any Individual beats the current best." An empty hall of fame
  first takes the first individual of the population; then every individual of the
  population, in order, replaces the member when its fitness is strictly greater (and it
  is not the same genome).
\<close>

definition hof_visit :: "(individual \<Rightarrow> rat) \<Rightarrow> individual option \<Rightarrow> individual \<Rightarrow> individual option" where
  "hof_visit evaluate hof ind =
     (case hof of
        None \<Rightarrow> None
      | Some best \<Rightarrow>
          if evaluate ind > evaluate best then (if ind = best then Some best else Some ind)
          else Some best)"

definition hof_update ::
  "(individual \<Rightarrow> rat) \<Rightarrow> individual option \<Rightarrow> individual list \<Rightarrow> individual option" where
  "hof_update evaluate hof population =
     foldl (hof_visit evaluate)
       (case hof of
          None \<Rightarrow> (case population of [] \<Rightarrow> None | first # _ \<Rightarrow> Some first)
        | Some best \<Rightarrow> Some best)
       population"

section \<open>The evolution loop\<close>

text \<open>
  A history entry holds the generation index and the maximum and minimum fitness of the
  generation. The average and the standard deviation (floating-point statistics that no
  decision of the loop reads) are left out. \<^verbatim>\<open>stats.compile\<close> computes \<^verbatim>\<open>np.max\<close> of
  the fitness values, which raises ValueError on an empty population. The progress
  callback only reports; it is not modelled.
\<close>

record history_entry =
  generation :: nat
  max_fitness :: rat
  min_fitness :: rat

record ga_state =
  population :: "individual list"
  hall_of_fame :: "individual option"
  history_log :: "history_entry list"

record 'row optimization_result =
  schedule :: "'row list"
  fitness :: "rat option"
  history :: "history_entry list"
  method_used :: "string option"
  config_used :: "config option"
  gemini_seed :: "bool option"

fun crossover_pairs :: "config \<Rightarrow> individual list \<Rightarrow> individual list rand" where
  "crossover_pairs cfg (child1 # child2 # rest) =
     bind random_random (\<lambda>u.
       if u < ga_crossover_prob cfg
       then bind (cxTwoPoint child1 child2) (\<lambda>(c1, c2).
            bind (crossover_pairs cfg rest) (\<lambda>rest'. ret (c1 # c2 # rest')))
       else bind (crossover_pairs cfg rest) (\<lambda>rest'. ret (child1 # child2 # rest')))"
| "crossover_pairs cfg rest = ret rest"

text \<open>\<^verbatim>\<open>int(x)\<close> of a float truncates towards zero.\<close>

definition py_int :: "rat \<Rightarrow> int" where
  "py_int x = (if x \<ge> 0 then \<lfloor>x\<rfloor> else \<lceil>x\<rceil>)"

definition elite_count :: "config \<Rightarrow> individual list \<Rightarrow> nat" where
  "elite_count cfg pop = nat (max 1 (py_int (of_nat (length pop) * ga_elitism_rate cfg)))"

text \<open>
  The part of one generation after the early-stop test: selection, elitism, crossover,
  mutation and replacement (\<^verbatim>\<open>offspring[:-elite_count] + elites\<close>).
\<close>

definition breed :: "config \<Rightarrow> (individual \<Rightarrow> rat) \<Rightarrow> individual list \<Rightarrow> individual list rand" where
  "breed cfg evaluate pop =
     bind (selTournament evaluate pop (length pop) (ga_tournament_size cfg)) (\<lambda>offspring.
       let elites = selBest evaluate pop (elite_count cfg pop) in
       bind (crossover_pairs cfg offspring) (\<lambda>offspring.
       bind (mapM (mutate_schedule cfg) offspring) (\<lambda>offspring.
         ret (take (length offspring - elite_count cfg pop) offspring @ elites))))"

text \<open>
  One pass of the loop body for generation \<open>gen\<close>; the Boolean tells whether the loop
  stops early (\<^verbatim>\<open>record["max"] >= 1000\<close>).
\<close>

definition generation_step ::
  "config \<Rightarrow> (individual \<Rightarrow> rat) \<Rightarrow> nat \<Rightarrow> ga_state \<Rightarrow> (ga_state \<times> bool) rand" where
  "generation_step cfg evaluate gen st =
     (case map evaluate (population st) of
        [] \<Rightarrow> raise ValueError
      | f # fs \<Rightarrow>
          let record_max = fold max fs f;
              record_min = fold min fs f;
              st' = st\<lparr>hall_of_fame := hof_update evaluate (hall_of_fame st) (population st),
                       history_log := history_log st @
                         [\<lparr>generation = gen, max_fitness = record_max, min_fitness = record_min\<rparr>]\<rparr>
          in if record_max \<ge> 1000 then ret (st', True)
             else bind (breed cfg evaluate (population st)) (\<lambda>pop'.
                    ret (st'\<lparr>population := pop'\<rparr>, False)))"

fun evolve_loop ::
  "config \<Rightarrow> (individual \<Rightarrow> rat) \<Rightarrow> nat \<Rightarrow> nat \<Rightarrow> ga_state \<Rightarrow> ga_state rand" where
  "evolve_loop cfg evaluate gen 0 st = ret st"
| "evolve_loop cfg evaluate gen (Suc n) st =
     bind (generation_step cfg evaluate gen st) (\<lambda>(st', stop).
       if stop then ret st' else evolve_loop cfg evaluate (Suc gen) n st')"

text \<open>
  \<^verbatim>\<open>evolve\<close>: \<open>evolve_loop cfg evaluate gen n\<close> runs the generations
  \<open>gen, \<dots>, gen + n - 1\<close>; \<^verbatim>\<open>hof[0]\<close> on an empty hall of fame raises IndexError.
\<close>

definition evolve :: "config \<Rightarrow> (individual \<Rightarrow> rat) \<Rightarrow> entity list \<Rightarrow> gene optimization_result rand" where
  "evolve cfg evaluate entities =
     bind (toolbox_population cfg entities (ga_population_size cfg)) (\<lambda>pop.
     bind (evolve_loop cfg evaluate 0 (nat (ga_generations cfg))
             \<lparr>population = pop, hall_of_fame = None, history_log = []\<rparr>) (\<lambda>st.
       case hall_of_fame st of
         None \<Rightarrow> raise IndexError
       | Some best \<Rightarrow>
           ret \<lparr>schedule = best, fitness = Some (evaluate best), history = history_log st,
                method_used = None, config_used = Some (config_used_of cfg),
                gemini_seed = None\<rparr>))"

section \<open>The AI advisor adapter\<close>

text \<open>
  \<^verbatim>\<open>GeminiScheduler\<close> of \<^verbatim>\<open>lib/gemini_ai.py\<close>. The remote model and the JSON library
  are the adapter's environment: what they deliver is an input of the model.
  An \<open>advisor_reply\<close> says which path \<^verbatim>\<open>generate_schedule_suggestions\<close> takes: the API
  call (or reading the response) raises, the response has no candidates, or it has a
  first candidate with a finish reason and a text. A \<open>response_text\<close> is absent or empty,
  raises when read, or is a string; of a string the model keeps what lines 157 to 173 of
  \<^verbatim>\<open>parse_response\<close> make of it: no bracketed span is found, \<^verbatim>\<open>json.loads\<close> raises
  JSONDecodeError or something else, or it returns the decoded array.
\<close>

datatype json =
  JNull | JBool bool | JNum rat | JStr string | JArr "json list" | JObj "(string \<times> json) list"

datatype parsed_text = NoArray | DecodeError | OtherParseError | Decoded "json list"

datatype response_text = NoText | TextRaises | Text parsed_text

datatype advisor_reply = Raises | NoCandidates | Candidate int response_text

text \<open>
  An entry of a returned schedule is a gene of the fallback scheduler or of the genetic
  algorithm, or a row the advisor suggested.
\<close>

datatype assignment = Placed gene | Suggested json

definition try_except :: "py_error + 'a \<Rightarrow> (py_error \<Rightarrow> py_error + 'a) \<Rightarrow> py_error + 'a" where
  "try_except body handler = (case body of Inl e \<Rightarrow> handler e | Inr v \<Rightarrow> Inr v)"

definition fallback_assignments :: "entity list \<Rightarrow> config \<Rightarrow> py_error + assignment list" where
  "fallback_assignments entities cfg =
     (case generate_fallback_schedule entities cfg of
        Inl e \<Rightarrow> Inl e
      | Inr sched \<Rightarrow> Inr (map Placed sched))"

text \<open>
  \<^verbatim>\<open>'entity_id' in slot\<close>: key membership for an object, substring test for a string,
  element membership for an array, TypeError for a number, a Boolean or null.
\<close>

fun has_entity_id :: "json \<Rightarrow> py_error + bool" where
  "has_entity_id (JObj kvs) = Inr (''entity_id'' \<in> fst ` set kvs)"
| "has_entity_id (JStr s) = Inr (sublist ''entity_id'' s)"
| "has_entity_id (JArr xs) = Inr (JStr ''entity_id'' \<in> set xs)"
| "has_entity_id _ = Inl TypeError"

fun valid_rows :: "json list \<Rightarrow> py_error + json list" where
  "valid_rows [] = Inr []"
| "valid_rows (slot # rest) =
     (case has_entity_id slot of
        Inl e \<Rightarrow> Inl e
      | Inr b \<Rightarrow>
          (case valid_rows rest of
             Inl e \<Rightarrow> Inl e
           | Inr valid_schedule \<Rightarrow> Inr (if b then slot # valid_schedule else valid_schedule)))"

definition parse_response :: "parsed_text \<Rightarrow> entity list \<Rightarrow> config \<Rightarrow> py_error + assignment list" where
  "parse_response parsed entities cfg =
     try_except
       (case parsed of
          NoArray \<Rightarrow> fallback_assignments entities cfg
        | DecodeError \<Rightarrow> Inl JSONDecodeError
        | OtherParseError \<Rightarrow> Inl OtherError
        | Decoded rows \<Rightarrow>
            (case valid_rows rows of
               Inl e \<Rightarrow> Inl e
             | Inr valid_schedule \<Rightarrow>
                 if length valid_schedule = 0 then fallback_assignments entities cfg
                 else Inr (map Suggested valid_schedule)))
       (\<lambda>e. fallback_assignments entities cfg)"

definition generate_schedule_suggestions ::
  "advisor_reply \<Rightarrow> entity list \<Rightarrow> config \<Rightarrow> py_error + assignment list" where
  "generate_schedule_suggestions reply entities cfg =
     try_except
       (case reply of
          Raises \<Rightarrow> Inl OtherError
        | NoCandidates \<Rightarrow> fallback_assignments entities cfg
        | Candidate finish_reason txt \<Rightarrow>
            if finish_reason = 2 then fallback_assignments entities cfg
            else if finish_reason = 3 then fallback_assignments entities cfg
            else if finish_reason \<notin> {0, 1} then fallback_assignments entities cfg
            else (case txt of
                    TextRaises \<Rightarrow> Inl ValueError
                  | NoText \<Rightarrow> fallback_assignments entities cfg
                  | Text parsed \<Rightarrow> parse_response parsed entities cfg))
       (\<lambda>e. fallback_assignments entities cfg)"

text \<open>
  The replies that are a failure of the advisor: an exception, a blocked or filtered
  response, no text, a text that does not parse, or an array without a usable row.
\<close>

fun unusable :: "parsed_text \<Rightarrow> bool" where
  "unusable (Decoded rows) =
     (case valid_rows rows of Inl e \<Rightarrow> True | Inr valid_schedule \<Rightarrow> valid_schedule = [])"
| "unusable _ = True"

fun advisor_failed :: "advisor_reply \<Rightarrow> bool" where
  "advisor_failed Raises = True"
| "advisor_failed NoCandidates = True"
| "advisor_failed (Candidate finish_reason NoText) = True"
| "advisor_failed (Candidate finish_reason TextRaises) = True"
| "advisor_failed (Candidate finish_reason (Text parsed)) =
     (finish_reason \<notin> {0, 1} \<or> unusable parsed)"

section \<open>The hybrid orchestrator\<close>

text \<open>
  \<^verbatim>\<open>HybridOptimizer\<close>. The progress callback and the pauses are not modelled. The
  result of the genetic algorithm is returned with its genes as schedule entries.
\<close>

definition optimize_with_gemini ::
  "advisor_reply \<Rightarrow> entity list \<Rightarrow> config \<Rightarrow> py_error + assignment optimization_result" where
  "optimize_with_gemini reply entities cfg =
     (case try_except (generate_schedule_suggestions reply entities cfg)
             (\<lambda>e. fallback_assignments entities cfg) of
        Inl e \<Rightarrow> Inl e
      | Inr sched \<Rightarrow>
          Inr \<lparr>schedule = sched, fitness = None, history = [],
               method_used = Some ''gemini'', config_used = None, gemini_seed = None\<rparr>)"

definition ga_result ::
  "string \<Rightarrow> bool option \<Rightarrow> gene optimization_result \<Rightarrow> assignment optimization_result" where
  "ga_result m seed r =
     \<lparr>schedule = map Placed (schedule r), fitness = fitness r, history = history r,
      method_used = Some m, config_used = config_used r, gemini_seed = seed\<rparr>"

definition optimize_with_ga ::
  "config \<Rightarrow> (individual \<Rightarrow> rat) \<Rightarrow> entity list \<Rightarrow> rng \<Rightarrow> py_error + assignment optimization_result" where
  "optimize_with_ga cfg evaluate entities s =
     (case evolve cfg evaluate entities s of
        Inl e \<Rightarrow> Inl e
      | Inr (r, s') \<Rightarrow> Inr (ga_result ''genetic'' None r))"

definition optimize_hybrid ::
  "advisor_reply \<Rightarrow> config \<Rightarrow> (individual \<Rightarrow> rat) \<Rightarrow> entity list \<Rightarrow> rng \<Rightarrow>
   py_error + assignment optimization_result" where
  "optimize_hybrid reply cfg evaluate entities s =
     (let has_seed =
            (case generate_schedule_suggestions reply (take 30 entities) cfg of
               Inl e \<Rightarrow> False
             | Inr gemini_solution \<Rightarrow> length gemini_solution > 0)
      in case evolve cfg evaluate entities s of
           Inl e \<Rightarrow> Inl e
         | Inr (r, s') \<Rightarrow> Inr (ga_result ''hybrid'' (Some has_seed) r))"

definition optimize ::
  "advisor_reply \<Rightarrow> (individual \<Rightarrow> rat) \<Rightarrow> entity list \<Rightarrow> config \<Rightarrow> string \<Rightarrow> rng \<Rightarrow>
   py_error + assignment optimization_result" where
  "optimize reply evaluate entities cfg m s =
     (if m = ''gemini'' then optimize_with_gemini reply entities cfg
      else if m = ''genetic'' then optimize_with_ga cfg evaluate entities s
      else if m = ''hybrid'' then optimize_hybrid reply cfg evaluate entities s
      else Inl ValueError)"

section \<open>Invariants of a genome\<close>


definition positional :: "entity list \<Rightarrow> individual \<Rightarrow> bool" where
  "positional entities ind \<longleftrightarrow> map entity_id ind = map ent_id entities"

section \<open>Example inputs\<close>

definition empty_config :: config where
  "empty_config =
     \<lparr>population_size = None, generations = None, crossover_prob = None, mutation_prob = None,
      tournament_size = None, elitism_rate = None, mutation_strategy = None,
      days = None, time_slots = None, rooms = None, room_capacities = None\<rparr>"

definition small_config :: config where
  "small_config =
     empty_config\<lparr>days := Some [''Mon'', ''Tue''], time_slots := Some [''9'', ''10''],
                  rooms := Some [''R1'', ''R2'']\<rparr>"

definition mk_entity :: "string \<Rightarrow> entity" where
  "mk_entity s = \<lparr>ent_id = s, ent_name = None, ent_duration = None, capacity_needed = None\<rparr>"

definition nine_entities :: "entity list" where
  "nine_entities =
     map mk_entity [''e0'', ''e1'', ''e2'', ''e3'', ''e4'', ''e5'', ''e6'', ''e7'', ''e8'']"

definition mk_gene :: "string \<Rightarrow> string \<Rightarrow> string \<Rightarrow> string \<Rightarrow> gene" where
  "mk_gene i d t r =
     \<lparr>entity_id = i, entity_name = Some i, day = d, time = t, room = r, duration = 2\<rparr>"

text \<open>
  A problem with a single slot: two entities, one day, one time, one room, the first
  entity being unavailable in that slot.
\<close>

definition two_entities :: "entity list" where
  "two_entities = [mk_entity ''e1'', mk_entity ''e2'']"

definition tiny_config :: config where
  "tiny_config =
     empty_config\<lparr>population_size := Some 2, generations := Some 3,
        crossover_prob := Some 1, mutation_prob := Some (1 / 2), tournament_size := Some 1,
        elitism_rate := Some 0, mutation_strategy := Some ''swap'',
        days := Some [''Mon''], time_slots := Some [''9''], rooms := Some [''R1'']\<rparr>"

definition tiny_fitness :: "individual \<Rightarrow> rat" where
  "tiny_fitness = availability_fitness ''e1'' [''Mon_9'']"

definition g1 :: gene where
  "g1 = mk_gene ''e1'' ''Mon'' ''9'' ''R1''"

definition g2 :: gene where
  "g2 = mk_gene ''e2'' ''Mon'' ''9'' ''R1''"


text \<open>
  Raw draws of a run on this problem: twelve draws create the two individuals; in each
  generation two draws select the offspring, three decide and place the crossover, and
  the remaining ones decide and place the mutations (\<open>half_draw\<close> is the draw that makes
  \<^verbatim>\<open>random.random()\<close> return one half).
\<close>

definition half_draw :: nat where
  "half_draw = 2 ^ 52"

definition creation_draws :: rng where
  "creation_draws = [0, 0, 0, 0, 0, 0, 0, 0, 0, 0, 0, 0]"

definition swap_run_draws :: rng where
  "swap_run_draws =
     [0, 1, 0, 0, 0, 0, 0, 0, half_draw] @ [0, 1, 0, 0, 0, half_draw, half_draw]"



definition no_generation_config :: config where
  "no_generation_config = tiny_config\<lparr>generations := Some 0\<rparr>"

definition empty_days_config :: config where
  "empty_days_config = tiny_config\<lparr>days := Some []\<rparr>"

text \<open>
  Two configurations as the setup pages can deliver them: a room list that names one
  room twice, and an empty room list.
\<close>

definition duplicate_rooms_config :: config where
  "duplicate_rooms_config = small_config\<lparr>rooms := Some [''R1'', ''R1'']\<rparr>"

definition empty_rooms_config :: config where
  "empty_rooms_config = small_config\<lparr>rooms := Some []\<rparr>"

section \<open>Verification: constraint checkers\<close>





lemma check_room_capacity_filter:
  "check_room_capacity cfg entities ind = length (filter (exceeds_capacity cfg entities) ind)"
  by (induction ind) simp_all

text \<open>
  Claim C9, as the code has it. The capacity of a room is the value the configured
  \<^verbatim>\<open>room_capacities\<close> map holds for it, and 30 when that map lacks the room; when the
  configuration has no \<^verbatim>\<open>room_capacities\<close> map, the built-in table (R101: 30, R102: 50,
  R103: 100, R104: 40, R105: 60) is consulted instead, and 30 is used only for a room
  outside that table. \<^verbatim>\<open>check_room_capacity\<close> counts the genes whose owning entity
  needs more than this capacity.
\<close>

theorem get_room_capacity_lookup:
  "get_room_capacity cfg r =
     (case room_capacities cfg of
        Some m \<Rightarrow> (case m r of Some c \<Rightarrow> c | None \<Rightarrow> 30)
      | None \<Rightarrow>
          (if r = ''R101'' then 30 else if r = ''R102'' then 50 else if r = ''R103'' then 100
           else if r = ''R104'' then 40 else if r = ''R105'' then 60 else 30))
   \<and> check_room_capacity cfg entities ind =
       card {i. i < length ind \<and>
                (\<exists>e. find (\<lambda>e. ent_id e = entity_id (ind ! i)) entities = Some e \<and>
                     get_or (capacity_needed e) 0 > get_room_capacity cfg (room (ind ! i)))}"
proof
  show "get_room_capacity cfg r =
     (case room_capacities cfg of
        Some m \<Rightarrow> (case m r of Some c \<Rightarrow> c | None \<Rightarrow> 30)
      | None \<Rightarrow>
          (if r = ''R101'' then 30 else if r = ''R102'' then 50 else if r = ''R103'' then 100
           else if r = ''R104'' then 40 else if r = ''R105'' then 60 else 30))"
    by (simp add: get_room_capacity_def get_or_def default_room_capacities_def
          split: option.splits)
next
  have "\<And>g. exceeds_capacity cfg entities g =
          (\<exists>e. find (\<lambda>e. ent_id e = entity_id g) entities = Some e \<and>
               get_or (capacity_needed e) 0 > get_room_capacity cfg (room g))"
    by (simp add: exceeds_capacity_def split: option.splits)
  then show "check_room_capacity cfg entities ind =
       card {i. i < length ind \<and>
                (\<exists>e. find (\<lambda>e. ent_id e = entity_id (ind ! i)) entities = Some e \<and>
                     get_or (capacity_needed e) 0 > get_room_capacity cfg (room (ind ! i)))}"
    by (simp add: check_room_capacity_filter length_filter_conv_card)
qed

theorem get_room_capacity_lookup_witness:
  "get_room_capacity (empty_config\<lparr>room_capacities := Some [''LAB1'' \<mapsto> 45]\<rparr>) ''LAB1'' = 45
   \<and> get_room_capacity (empty_config\<lparr>room_capacities := Some [''LAB1'' \<mapsto> 45]\<rparr>) ''R102'' = 30
   \<and> get_room_capacity empty_config ''R999'' = 30"
  using get_room_capacity_lookup [of "empty_config\<lparr>room_capacities := Some [''LAB1'' \<mapsto> 45]\<rparr>" "''LAB1''" "[]" "[]"]
        get_room_capacity_lookup [of "empty_config\<lparr>room_capacities := Some [''LAB1'' \<mapsto> 45]\<rparr>" "''R102''" "[]" "[]"]
        get_room_capacity_lookup [of empty_config "''R999''" "[]" "[]"]
  by (simp add: empty_config_def)

theorem get_room_capacity_default_table_counterexample:
  "room_capacities empty_config = None \<and> get_room_capacity empty_config ''R102'' = 50
   \<and> get_room_capacity empty_config ''R102'' \<noteq> 30"
  by (simp add: get_room_capacity_def get_or_def default_room_capacities_def empty_config_def)

section \<open>Verification: round-robin fallback scheduler\<close>

lemma mod_succ_cases:
  fixes k n :: nat
  assumes "0 < n"
  shows "(if Suc (k mod n) \<ge> n then Suc k mod n = 0 \<and> Suc k div n = Suc (k div n)
         else Suc k mod n = Suc (k mod n) \<and> Suc k div n = k div n)"
proof -
  have "k mod n < n" using assms by simp
  then show ?thesis by (auto simp: mod_Suc div_Suc)
qed

lemma next_slot_at:
  assumes "0 < nt" "0 < nr"
  shows "next_slot nt nr (slot_at nt nr k) = slot_at nt nr (Suc k)"
proof -
  have d: "k div (nt * nr) = (k div nr) div nt" "Suc k div (nt * nr) = (Suc k div nr) div nt"
    by (simp_all add: div_mult2_eq mult.commute)
  show ?thesis
  proof (cases "Suc (k mod nr) \<ge> nr")
    case True
    with mod_succ_cases [OF assms(2), of k]
    have r: "Suc k mod nr = 0" "Suc k div nr = Suc (k div nr)" by simp_all
    show ?thesis
    proof (cases "Suc ((k div nr) mod nt) \<ge> nt")
      case T2: True
      with mod_succ_cases [OF assms(1), of "k div nr"]
      have "Suc (k div nr) mod nt = 0" "Suc (k div nr) div nt = Suc ((k div nr) div nt)" by simp_all
      then show ?thesis using True T2 r d
        by (simp add: next_slot_def slot_at_def)
    next
      case F2: False
      with mod_succ_cases [OF assms(1), of "k div nr"]
      have "Suc (k div nr) mod nt = Suc ((k div nr) mod nt)" "Suc (k div nr) div nt = (k div nr) div nt" by simp_all
      then show ?thesis using True F2 r d
        by (simp add: next_slot_def slot_at_def)
    qed
  next
    case False
    with mod_succ_cases [OF assms(2), of k]
    have r: "Suc k mod nr = Suc (k mod nr)" "Suc k div nr = k div nr" by simp_all
    have "\<not> nt \<le> (k div nr) mod nt" using assms(1) by (simp add: not_le)
    then show ?thesis using False r d
      by (simp add: next_slot_def slot_at_def)
  qed
qed


lemma fallback_gene_at:
  assumes "ds \<noteq> []" "ts \<noteq> []" "rs \<noteq> []"
  shows "(case slot_at (length ts) (length rs) k of (d, t, r) \<Rightarrow> fallback_gene ds ts rs e d t r)
           = Inr (gene_at ds ts rs k e)"
  using assms by (simp add: slot_at_def fallback_gene_def cyclic_get_def gene_at_def)

lemma fallback_loop_closed:
  assumes "ds \<noteq> []" "ts \<noteq> []" "rs \<noteq> []"
  shows "fallback_loop ds ts rs es (slot_at (length ts) (length rs) k) acc
           = Inr (acc @ map (\<lambda>i. gene_at ds ts rs (k + i) (es ! i)) [0..<length es])"
proof (induction es arbitrary: k acc)
  case Nil
  then show ?case by simp
next
  case (Cons e es)
  have g: "(case slot_at (length ts) (length rs) k of (d, t, r) \<Rightarrow> fallback_gene ds ts rs e d t r)
           = Inr (gene_at ds ts rs k e)"
    by (rule fallback_gene_at [OF assms])
  have n: "next_slot (length ts) (length rs) (slot_at (length ts) (length rs) k)
             = slot_at (length ts) (length rs) (Suc k)"
    using assms by (simp add: next_slot_at)
  have "fallback_loop ds ts rs (e # es) (slot_at (length ts) (length rs) k) acc
          = fallback_loop ds ts rs es (slot_at (length ts) (length rs) (Suc k)) (acc @ [gene_at ds ts rs k e])"
    using g n by (cases "slot_at (length ts) (length rs) k") (simp)
  also have "\<dots> = Inr ((acc @ [gene_at ds ts rs k e])
                       @ map (\<lambda>i. gene_at ds ts rs (Suc k + i) (es ! i)) [0..<length es])"
    by (rule Cons.IH)
  also have "\<dots> = Inr (acc @ map (\<lambda>i. gene_at ds ts rs (k + i) ((e # es) ! i)) [0..<length (e # es)])"
    by (simp add: map_upt_Suc del: upt_Suc)
  finally show ?case .
qed

lemma generate_fallback_closed:
  assumes "fallback_days cfg \<noteq> []" "fallback_time_slots cfg \<noteq> []" "fallback_rooms cfg \<noteq> []"
  shows "generate_fallback_schedule entities cfg
           = Inr (map (\<lambda>i. gene_at (fallback_days cfg) (fallback_time_slots cfg) (fallback_rooms cfg) i (entities ! i))
                    [0..<length entities])"
proof -
  have "slot_at (length (fallback_time_slots cfg)) (length (fallback_rooms cfg)) 0 = (0, 0, 0)"
    by (simp add: slot_at_def)
  then show ?thesis
    using fallback_loop_closed [OF assms, of entities 0 "[]"]
    by (simp add: generate_fallback_schedule_def)
qed

lemma odometer_inj:
  fixes i j :: nat
  assumes "0 < nt" "0 < nr"
    and "i div (nt * nr) = j div (nt * nr)"
    and "(i div nr) mod nt = (j div nr) mod nt"
    and "i mod nr = j mod nr"
  shows "i = j"
proof -
  have "(i div nr) div nt = (j div nr) div nt"
    using assms(3) by (simp add: div_mult2_eq mult.commute)
  with assms(4) have "i div nr = j div nr"
    by (metis mult_div_mod_eq)
  with assms(5) show ?thesis
    by (metis mult_div_mod_eq)
qed

lemma triple_gene_at_distinct:
  assumes ne: "ds \<noteq> []" "ts \<noteq> []" "rs \<noteq> []"
    and di: "distinct ds" "distinct ts" "distinct rs"
    and lt: "i < length ds * length ts * length rs" "j < length ds * length ts * length rs"
    and neq: "i \<noteq> j"
  shows "triple (gene_at ds ts rs i e) \<noteq> triple (gene_at ds ts rs j e')"
proof
  assume eq: "triple (gene_at ds ts rs i e) = triple (gene_at ds ts rs j e')"
  have pos: "0 < length ds" "0 < length ts" "0 < length rs" using ne by simp_all
  have bi: "i div (length ts * length rs) < length ds" "j div (length ts * length rs) < length ds"
    using lt pos by (simp_all add: less_mult_imp_div_less mult.assoc)
  from eq have e1: "ds ! ((i div (length ts * length rs)) mod length ds)
                  = ds ! ((j div (length ts * length rs)) mod length ds)"
    and e2: "ts ! ((i div length rs) mod length ts) = ts ! ((j div length rs) mod length ts)"
    and e3: "rs ! (i mod length rs) = rs ! (j mod length rs)"
    by (simp_all add: triple_def gene_at_def)
  from e1 bi di(1) have "i div (length ts * length rs) = j div (length ts * length rs)"
    by (simp add: nth_eq_iff_index_eq)
  moreover from e2 di(2) pos have "(i div length rs) mod length ts = (j div length rs) mod length ts"
    by (simp add: nth_eq_iff_index_eq)
  moreover from e3 di(3) pos have "i mod length rs = j mod length rs"
    by (simp add: nth_eq_iff_index_eq)
  ultimately have "i = j" using odometer_inj pos by blast
  with neq show False by simp
qed

lemma triple_gene_at_wrap:
  assumes "ds \<noteq> []" "ts \<noteq> []" "rs \<noteq> []"
    and "length ds * length ts * length rs \<le> k"
  shows "triple (gene_at ds ts rs k e) = triple (gene_at ds ts rs (k - length ds * length ts * length rs) e')"
proof -
  define D T R where "D = length ds" and "T = length ts" and "R = length rs"
  have pos: "0 < D" "0 < T" "0 < R" using assms by (simp_all add: D_def T_def R_def)
  obtain m where k: "k = m + D * T * R"
    using assms(4) unfolding D_def T_def R_def by (metis le_add_diff_inverse2)
  have a: "(m + D * T * R) mod R = m mod R" by simp
  have "(m + D * T * R) div R = m div R + D * T" using pos by simp
  then have b: "((m + D * T * R) div R) mod T = (m div R) mod T" by simp
  have "(m + D * T * R) div (T * R) = m div (T * R) + D"
    using pos by (simp add: mult.assoc)
  then have c: "((m + D * T * R) div (T * R)) mod D = (m div (T * R)) mod D" by simp
  show ?thesis
    using a b c unfolding k
    by (simp add: triple_def gene_at_def D_def [symmetric] T_def [symmetric] R_def [symmetric])
qed

lemma triple_gene_at_mod:
  assumes "ds \<noteq> []" "ts \<noteq> []" "rs \<noteq> []"
  shows "triple (gene_at ds ts rs k e)
       = triple (gene_at ds ts rs (k mod (length ds * length ts * length rs)) e')"
proof -
  define D T R where "D = length ds" and "T = length ts" and "R = length rs"
  have pos: "0 < D" "0 < T" "0 < R" using assms by (simp_all add: D_def T_def R_def)
  define m q where "m = k mod (D * T * R)" and "q = k div (D * T * R)"
  have "k = k mod (D * T * R) + k div (D * T * R) * (D * T * R)"
    by (metis mod_div_mult_eq)
  then have k: "k = m + q * D * T * R"
    by (simp add: m_def q_def mult.assoc)
  have a: "(m + q * D * T * R) mod R = m mod R" by simp
  have "(m + q * D * T * R) div R = m div R + q * D * T" using pos by simp
  then have b: "((m + q * D * T * R) div R) mod T = (m div R) mod T" by simp
  have "m + q * D * T * R = m + q * D * (T * R)" by (simp add: mult.assoc)
  moreover have "(m + q * D * (T * R)) div (T * R) = m div (T * R) + q * D"
    using pos by simp
  ultimately have "(m + q * D * T * R) div (T * R) = m div (T * R) + q * D"
    by presburger
  then have c: "((m + q * D * T * R) div (T * R)) mod D = (m div (T * R)) mod D" by simp
  have "triple (gene_at ds ts rs k e) = triple (gene_at ds ts rs m e')"
    unfolding triple_def gene_at_def D_def [symmetric] T_def [symmetric] R_def [symmetric]
    using a b c unfolding k [symmetric] by simp
  then show ?thesis
    by (simp only: m_def D_def T_def R_def)
qed

text \<open>
  Claim C5, as the code has it. When the three resource lists are non-empty and name
  no value twice (lengths \<open>D\<close>, \<open>T\<close>, \<open>R\<close>), the fallback scheduler returns one
  gene per entity in input order; the genes at the first
  \<open>min (entity count) (D * T * R)\<close> indices have pairwise distinct
  (day, time, room) triples; every index \<open>k \<ge> D * T * R\<close> gets the triple of index
  \<open>k - D * T * R\<close> (and so of \<open>k mod (D * T * R)\<close>): the triples repeat from the first
  one, and index \<open>D * T * R\<close> gets the triple of index 0.
\<close>

theorem fallback_round_robin:
  assumes ne: "fallback_days cfg \<noteq> []" "fallback_time_slots cfg \<noteq> []" "fallback_rooms cfg \<noteq> []"
    and di: "distinct (fallback_days cfg)" "distinct (fallback_time_slots cfg)"
            "distinct (fallback_rooms cfg)"
  shows "\<exists>sched. generate_fallback_schedule entities cfg = Inr sched
           \<and> length sched = length entities
           \<and> (\<forall>i < length entities. entity_id (sched ! i) = ent_id (entities ! i))
           \<and> (\<forall>i j. i < j \<and> j < min (length entities)
                        (length (fallback_days cfg) * length (fallback_time_slots cfg) * length (fallback_rooms cfg))
                 \<longrightarrow> triple (sched ! i) \<noteq> triple (sched ! j))
           \<and> (\<forall>k. length (fallback_days cfg) * length (fallback_time_slots cfg) * length (fallback_rooms cfg) \<le> k
                    \<and> k < length entities
                 \<longrightarrow> triple (sched ! k) = triple (sched ! (k - length (fallback_days cfg) * length (fallback_time_slots cfg) * length (fallback_rooms cfg)))
                   \<and> triple (sched ! k) = triple (sched ! (k mod (length (fallback_days cfg) * length (fallback_time_slots cfg) * length (fallback_rooms cfg)))))
           \<and> (length (fallback_days cfg) * length (fallback_time_slots cfg) * length (fallback_rooms cfg) < length entities
                 \<longrightarrow> triple (sched ! (length (fallback_days cfg) * length (fallback_time_slots cfg) * length (fallback_rooms cfg)))
                     = triple (sched ! 0))"
proof -
  define ds ts rs where "ds = fallback_days cfg" and "ts = fallback_time_slots cfg"
    and "rs = fallback_rooms cfg"
  define N where "N = length ds * length ts * length rs"
  define sched where "sched = map (\<lambda>i. gene_at ds ts rs i (entities ! i)) [0..<length entities]"
  have ne': "ds \<noteq> []" "ts \<noteq> []" "rs \<noteq> []" using ne by (simp_all add: ds_def ts_def rs_def)
  have di': "distinct ds" "distinct ts" "distinct rs" using di by (simp_all add: ds_def ts_def rs_def)
  have Npos: "0 < N" using ne' by (simp add: N_def)
  have run: "generate_fallback_schedule entities cfg = Inr sched"
    using generate_fallback_closed [OF ne] by (simp add: sched_def ds_def ts_def rs_def)
  have len: "length sched = length entities" by (simp add: sched_def)
  have nth: "\<And>i. i < length entities \<Longrightarrow> sched ! i = gene_at ds ts rs i (entities ! i)"
    by (simp add: sched_def)
  have ids: "\<forall>i < length entities. entity_id (sched ! i) = ent_id (entities ! i)"
    by (simp add: nth gene_at_def)
  have dist: "\<forall>i j. i < j \<and> j < min (length entities) N \<longrightarrow> triple (sched ! i) \<noteq> triple (sched ! j)"
  proof (intro allI impI)
    fix i j assume h: "i < j \<and> j < min (length entities) N"
    then have "i < N" "j < N" "i \<noteq> j" "i < length entities" "j < length entities" by simp_all
    then show "triple (sched ! i) \<noteq> triple (sched ! j)"
      using triple_gene_at_distinct [OF ne' di', of i j] by (simp add: nth N_def)
  qed
  have wrap: "\<forall>k. N \<le> k \<and> k < length entities
                 \<longrightarrow> triple (sched ! k) = triple (sched ! (k - N))
                   \<and> triple (sched ! k) = triple (sched ! (k mod N))"
  proof (intro allI impI)
    fix k assume h: "N \<le> k \<and> k < length entities"
    then have a: "k - N < length entities" by arith
    have "k mod N < N" using Npos by simp
    then have b: "k mod N < length entities" using h by simp
    have "triple (sched ! k) = triple (sched ! (k - N))"
      using triple_gene_at_wrap [OF ne', of k] h a by (simp add: nth N_def)
    moreover have "triple (sched ! k) = triple (sched ! (k mod N))"
      using triple_gene_at_mod [OF ne', of k] h b by (simp add: nth N_def)
    ultimately show "triple (sched ! k) = triple (sched ! (k - N))
                   \<and> triple (sched ! k) = triple (sched ! (k mod N))" by simp
  qed
  have first: "N < length entities \<longrightarrow> triple (sched ! N) = triple (sched ! 0)"
    using wrap by force
  show ?thesis
    using run len ids dist wrap first unfolding N_def ds_def ts_def rs_def by blast
qed

theorem fallback_round_robin_witness:
  "fallback_days small_config \<noteq> [] \<and> fallback_time_slots small_config \<noteq> []
   \<and> fallback_rooms small_config \<noteq> []
   \<and> distinct (fallback_days small_config) \<and> distinct (fallback_time_slots small_config)
   \<and> distinct (fallback_rooms small_config)
   \<and> length (fallback_days small_config) * length (fallback_time_slots small_config)
       * length (fallback_rooms small_config) = 8
   \<and> length nine_entities = 9
   \<and> (\<exists>sched. generate_fallback_schedule nine_entities small_config = Inr sched
         \<and> length sched = 9
         \<and> (\<forall>i j. i < j \<and> j < 8 \<longrightarrow> triple (sched ! i) \<noteq> triple (sched ! j))
         \<and> triple (sched ! 8) = triple (sched ! 0))"
proof -
  have h: "fallback_days small_config \<noteq> []" "fallback_time_slots small_config \<noteq> []"
    "fallback_rooms small_config \<noteq> []"
    "distinct (fallback_days small_config)" "distinct (fallback_time_slots small_config)"
    "distinct (fallback_rooms small_config)"
    by (simp_all add: fallback_days_def fallback_time_slots_def fallback_rooms_def
          small_config_def empty_config_def get_or_def)
  have n: "length (fallback_days small_config) * length (fallback_time_slots small_config)
       * length (fallback_rooms small_config) = 8"
    by (simp add: fallback_days_def fallback_time_slots_def fallback_rooms_def
          small_config_def empty_config_def get_or_def)
  have l: "length nine_entities = 9" by (simp add: nine_entities_def)
  from fallback_round_robin [OF h, of nine_entities] obtain sched where
    s: "generate_fallback_schedule nine_entities small_config = Inr sched"
       "length sched = length nine_entities"
       "\<forall>i j. i < j \<and> j < min (length nine_entities)
                        (length (fallback_days small_config) * length (fallback_time_slots small_config) * length (fallback_rooms small_config))
                 \<longrightarrow> triple (sched ! i) \<noteq> triple (sched ! j)"
       "length (fallback_days small_config) * length (fallback_time_slots small_config) * length (fallback_rooms small_config) < length nine_entities
                 \<longrightarrow> triple (sched ! (length (fallback_days small_config) * length (fallback_time_slots small_config) * length (fallback_rooms small_config)))
                     = triple (sched ! 0)"
    by blast
  have "length sched = 9" using s(2) l by simp
  moreover have "\<forall>i j. i < j \<and> j < 8 \<longrightarrow> triple (sched ! i) \<noteq> triple (sched ! j)"
    using s(3) n l by simp
  moreover have "triple (sched ! 8) = triple (sched ! 0)"
    using s(4) n l by simp
  ultimately show ?thesis using h n l s(1) by blast
qed

text \<open>
  Claim C5 as stated fails when a resource list names a value twice: the scheduler
  cycles through list positions and never compares the values. With the rooms R1, R1
  (two days, two times, capacity eight) the first two entities both get Monday, 9, R1.
\<close>

theorem fallback_duplicate_rooms_counterexample:
  "generate_fallback_schedule two_entities duplicate_rooms_config
     = Inr [\<lparr>entity_id = ''e1'', entity_name = None, day = ''Mon'', time = ''9'', room = ''R1'',
              duration = 1\<rparr>,
            \<lparr>entity_id = ''e2'', entity_name = None, day = ''Mon'', time = ''9'', room = ''R1'',
              duration = 1\<rparr>]
   \<and> length (fallback_days duplicate_rooms_config)
       * length (fallback_time_slots duplicate_rooms_config)
       * length (fallback_rooms duplicate_rooms_config) = 8
   \<and> length two_entities = 2
   \<and> triple \<lparr>entity_id = ''e1'', entity_name = None, day = ''Mon'', time = ''9'', room = ''R1'',
               duration = 1\<rparr>
     = triple \<lparr>entity_id = ''e2'', entity_name = None, day = ''Mon'', time = ''9'', room = ''R1'',
                 duration = 1\<rparr>"
  by (simp add: generate_fallback_schedule_def fallback_gene_def cyclic_get_def next_slot_def
        fallback_days_def fallback_time_slots_def fallback_rooms_def get_or_def
        duplicate_rooms_config_def small_config_def empty_config_def two_entities_def
        mk_entity_def triple_def)

section \<open>Verification: the random source and the genetic operators\<close>

lemma ret_Inr: "ret x s = Inr (y, t) \<longleftrightarrow> y = x \<and> t = s"
  by (auto simp: ret_def)

lemma raise_Inr: "raise e s \<noteq> Inr r"
  by (simp add: raise_def)

lemma bind_Inr:
  "bind m f s = Inr (y, t) \<longleftrightarrow> (\<exists>x s'. m s = Inr (x, s') \<and> f x s' = Inr (y, t))"
  by (auto simp: bind_def split: sum.splits)

lemma bind_Inl:
  "bind m f s = Inl e \<longleftrightarrow> m s = Inl e \<or> (\<exists>x s'. m s = Inr (x, s') \<and> f x s' = Inl e)"
  by (auto simp: bind_def split: sum.splits)

lemma next_draw_Inr: "next_draw s = Inr (r, t) \<longleftrightarrow> (r, t) = draw s"
  by (auto simp: next_draw_def)

lemma random_choice_Inr:
  "random_choice xs s = Inr (x, t) \<Longrightarrow> x \<in> set xs"
  by (auto simp: random_choice_def bind_Inr ret_Inr raise_Inr split: if_splits)



lemma repeatM_all:
  assumes "\<And>s x t. m s = Inr (x, t) \<Longrightarrow> Q x"
  shows "repeatM n m s = Inr (xs, t) \<Longrightarrow> length xs = n \<and> (\<forall>x \<in> set xs. Q x)"
proof (induction n arbitrary: s xs t)
  case 0
  then show ?case by (simp add: ret_Inr)
next
  case (Suc n)
  from Suc.prems obtain x s1 ys where
    a: "m s = Inr (x, s1)" and b: "repeatM n m s1 = Inr (ys, t)" and c: "xs = x # ys"
    by (auto simp: bind_Inr ret_Inr)
  from Suc.IH [OF b] assms [OF a] c show ?case by simp
qed

lemma mapM_all:
  assumes "\<And>x s y t. x \<in> set xs \<Longrightarrow> Q x \<Longrightarrow> f x s = Inr (y, t) \<Longrightarrow> R x y"
  shows "mapM f xs s = Inr (ys, t) \<Longrightarrow> \<forall>x \<in> set xs. Q x \<Longrightarrow> list_all2 R xs ys"
  using assms
proof (induction xs arbitrary: s ys t)
  case Nil
  then show ?case by (simp add: ret_Inr)
next
  case (Cons x xs)
  from Cons.prems(1) obtain y s1 zs where
    a: "f x s = Inr (y, s1)" and b: "mapM f xs s1 = Inr (zs, t)" and c: "ys = y # zs"
    by (auto simp: bind_Inr ret_Inr)
  have "R x y" using Cons.prems(2,3) a by simp
  moreover have "list_all2 R xs zs"
    using Cons.IH [OF b] Cons.prems(2,3) by simp
  ultimately show ?case using c by simp
qed





























section \<open>Verification: hall of fame\<close>

lemma hof_fold:
  "\<exists>b'. foldl (hof_visit evaluate) (Some b) xs = Some b'
        \<and> b' \<in> insert b (set xs)
        \<and> evaluate b \<le> evaluate b'
        \<and> (\<forall>x \<in> set xs. evaluate x \<le> evaluate b')
        \<and> (b' \<noteq> b \<longrightarrow> evaluate b < evaluate b')"
proof (induction xs arbitrary: b)
  case Nil
  then show ?case by simp
next
  case (Cons x xs)
  show ?case
  proof (cases "evaluate x > evaluate b")
    case True
    then have v: "hof_visit evaluate (Some b) x = Some x"
      by (auto simp: hof_visit_def)
    from Cons.IH [of x] obtain b' where
      "foldl (hof_visit evaluate) (Some x) xs = Some b'" "b' \<in> insert x (set xs)"
      "evaluate x \<le> evaluate b'" "\<forall>y \<in> set xs. evaluate y \<le> evaluate b'"
      by blast
    then show ?thesis using v True by auto
  next
    case False
    then have v: "hof_visit evaluate (Some b) x = Some b"
      by (auto simp: hof_visit_def)
    from Cons.IH [of b] obtain b' where
      "foldl (hof_visit evaluate) (Some b) xs = Some b'" "b' \<in> insert b (set xs)"
      "evaluate b \<le> evaluate b'" "\<forall>y \<in> set xs. evaluate y \<le> evaluate b'"
      "b' \<noteq> b \<longrightarrow> evaluate b < evaluate b'"
      by blast
    then show ?thesis using v False by auto
  qed
qed

lemma hof_update_Some:
  "\<exists>b'. hof_update evaluate (Some b) pop = Some b'
        \<and> b' \<in> insert b (set pop)
        \<and> evaluate b \<le> evaluate b'
        \<and> (\<forall>x \<in> set pop. evaluate x \<le> evaluate b')
        \<and> (b' \<noteq> b \<longrightarrow> evaluate b < evaluate b')"
  using hof_fold [of evaluate b pop] by (simp add: hof_update_def)

lemma hof_update_None:
  "pop \<noteq> [] \<Longrightarrow> \<exists>b'. hof_update evaluate None pop = Some b' \<and> b' \<in> set pop
        \<and> (\<forall>x \<in> set pop. evaluate x \<le> evaluate b')"
proof -
  assume "pop \<noteq> []"
  then obtain p ps where p: "pop = p # ps" by (cases pop) auto
  from hof_fold [of evaluate p pop] obtain b' where
    "foldl (hof_visit evaluate) (Some p) pop = Some b'" "b' \<in> insert p (set pop)"
    "\<forall>x \<in> set pop. evaluate x \<le> evaluate b'" by blast
  then show ?thesis using p by (simp add: hof_update_def)
qed

lemma hof_update_empty: "hof_update evaluate h [] = h"
  by (cases h) (simp_all add: hof_update_def)

lemma generation_step_hof:
  assumes "generation_step cfg evaluate gen st s = Inr ((st', stop), t)"
  shows "population st \<noteq> [] \<and>
         hall_of_fame st' = hof_update evaluate (hall_of_fame st) (population st)"
proof (cases "map evaluate (population st)")
  case Nil
  with assms show ?thesis by (simp add: generation_step_def raise_Inr)
next
  case (Cons f fs)
  then have ne: "population st \<noteq> []" by auto
  from assms Cons have "hall_of_fame st' = hof_update evaluate (hall_of_fame st) (population st)"
    by (auto simp: generation_step_def Let_def bind_Inr ret_Inr split: if_splits)
  with ne show ?thesis by simp
qed

lemma generation_step_hof_value:
  assumes "generation_step cfg evaluate gen st s = Inr ((st', stop), t)"
  shows "\<exists>b'. hall_of_fame st' = Some b'
           \<and> (\<forall>x \<in> set (population st). evaluate x \<le> evaluate b')
           \<and> (hall_of_fame st = None \<longrightarrow> b' \<in> set (population st))
           \<and> (\<forall>b. hall_of_fame st = Some b \<longrightarrow>
                  evaluate b \<le> evaluate b' \<and>
                  (b' \<noteq> b \<longrightarrow> b' \<in> set (population st) \<and> evaluate b < evaluate b'))"
proof -
  from generation_step_hof [OF assms] have
    ne: "population st \<noteq> []" and
    h: "hall_of_fame st' = hof_update evaluate (hall_of_fame st) (population st)" by simp_all
  show ?thesis
  proof (cases "hall_of_fame st")
    case None
    with hof_update_None [OF ne, of evaluate] h show ?thesis by auto
  next
    case (Some b)
    from hof_update_Some [of evaluate b "population st"] obtain b' where
      "hof_update evaluate (Some b) (population st) = Some b'"
      "b' \<in> insert b (set (population st))"
      "evaluate b \<le> evaluate b'"
      "\<forall>x \<in> set (population st). evaluate x \<le> evaluate b'"
      "b' \<noteq> b \<longrightarrow> evaluate b < evaluate b'" by blast
    with Some h show ?thesis by auto
  qed
qed

lemma evolve_loop_hof:
  "evolve_loop cfg evaluate gen n st s = Inr (st', t) \<Longrightarrow> hall_of_fame st = Some b
   \<Longrightarrow> \<exists>b'. hall_of_fame st' = Some b' \<and> evaluate b \<le> evaluate b'"
proof (induction n arbitrary: gen st s b)
  case 0
  then show ?case by (simp add: ret_Inr)
next
  case (Suc n)
  from Suc.prems(1) obtain st1 stop s1 where
    g: "generation_step cfg evaluate gen st s = Inr ((st1, stop), s1)" and
    r: "(if stop then ret st1 else evolve_loop cfg evaluate (Suc gen) n st1) s1 = Inr (st', t)"
    by (auto simp: bind_Inr)
  from generation_step_hof_value [OF g] Suc.prems(2) obtain b1 where
    b1: "hall_of_fame st1 = Some b1" "evaluate b \<le> evaluate b1" by auto
  show ?case
  proof (cases stop)
    case True
    with r have "st' = st1" by (simp add: ret_Inr)
    then show ?thesis using b1 by simp
  next
    case False
    with r have "evolve_loop cfg evaluate (Suc gen) n st1 s1 = Inr (st', t)" by simp
    from Suc.IH [OF this b1(1)] obtain b' where
      "hall_of_fame st' = Some b'" "evaluate b1 \<le> evaluate b'" by blast
    then show ?thesis using b1(2) by auto
  qed
qed

text \<open>
  Claim C3. In one generation of the loop the hall of fame (of size one) ends up
  holding an individual at least as fit as its previous member and as every individual
  of the generation's population; its member changes only to an individual of the
  population that is strictly fitter. Hence over any number of further generations of
  a run the fitness of the hall-of-fame member does not decrease, whatever the
  population does.
\<close>

theorem hall_of_fame_monotone:
  "(generation_step cfg evaluate gen st s = Inr ((st', stop), t) \<longrightarrow>
      (\<exists>b'. hall_of_fame st' = Some b'
           \<and> (\<forall>x \<in> set (population st). evaluate x \<le> evaluate b')
           \<and> (\<forall>b. hall_of_fame st = Some b \<longrightarrow>
                  evaluate b \<le> evaluate b' \<and>
                  (b' \<noteq> b \<longrightarrow> b' \<in> set (population st) \<and> evaluate b < evaluate b'))))
   \<and> (evolve_loop cfg evaluate gen n st s = Inr (st'', t') \<longrightarrow>
        (\<forall>b. hall_of_fame st = Some b \<longrightarrow>
           (\<exists>b'. hall_of_fame st'' = Some b' \<and> evaluate b \<le> evaluate b')))"
proof (intro conjI impI allI)
  assume "generation_step cfg evaluate gen st s = Inr ((st', stop), t)"
  from generation_step_hof_value [OF this]
  show "\<exists>b'. hall_of_fame st' = Some b'
           \<and> (\<forall>x \<in> set (population st). evaluate x \<le> evaluate b')
           \<and> (\<forall>b. hall_of_fame st = Some b \<longrightarrow>
                  evaluate b \<le> evaluate b' \<and>
                  (b' \<noteq> b \<longrightarrow> b' \<in> set (population st) \<and> evaluate b < evaluate b'))"
    by blast
next
  fix b
  assume "evolve_loop cfg evaluate gen n st s = Inr (st'', t')" "hall_of_fame st = Some b"
  then show "\<exists>b'. hall_of_fame st'' = Some b' \<and> evaluate b \<le> evaluate b'"
    by (rule evolve_loop_hof)
qed

lemma tiny_fitness_values:
  "tiny_fitness [g1, g2] = 910" "tiny_fitness [g2, g2] = 1000" "tiny_fitness [g2, g1] = 910"
  by (simp_all add: tiny_fitness_def availability_fitness_def check_availability_def
        g1_def g2_def mk_gene_def)

theorem hall_of_fame_monotone_witness:
  "generation_step tiny_config tiny_fitness 1
       \<lparr>population = [[g1, g2], [g2, g2]], hall_of_fame = Some [g1, g2], history_log = []\<rparr> []
     = Inr ((\<lparr>population = [[g1, g2], [g2, g2]], hall_of_fame = Some [g2, g2],
              history_log = [\<lparr>generation = 1, max_fitness = 1000, min_fitness = 910\<rparr>]\<rparr>, True), [])
   \<and> tiny_fitness [g1, g2] \<le> tiny_fitness [g2, g2]
   \<and> tiny_fitness [g1, g2] < tiny_fitness [g2, g2]"
proof -
  have ne: "[g2, g2] \<noteq> [g1, g2]" by (simp add: g1_def g2_def mk_gene_def)
  have run: "generation_step tiny_config tiny_fitness 1
       \<lparr>population = [[g1, g2], [g2, g2]], hall_of_fame = Some [g1, g2], history_log = []\<rparr> []
     = Inr ((\<lparr>population = [[g1, g2], [g2, g2]], hall_of_fame = Some [g2, g2],
              history_log = [\<lparr>generation = 1, max_fitness = 1000, min_fitness = 910\<rparr>]\<rparr>, True), [])"
    using ne
    by (simp add: generation_step_def tiny_fitness_values hof_update_def hof_visit_def ret_def)
  from hall_of_fame_monotone [of tiny_config tiny_fitness 1
       "\<lparr>population = [[g1, g2], [g2, g2]], hall_of_fame = Some [g1, g2], history_log = []\<rparr>" "[]"
       "\<lparr>population = [[g1, g2], [g2, g2]], hall_of_fame = Some [g2, g2],
              history_log = [\<lparr>generation = 1, max_fitness = 1000, min_fitness = 910\<rparr>]\<rparr>"
       True "[]"] run ne
  have "tiny_fitness [g1, g2] \<le> tiny_fitness [g2, g2]
      \<and> tiny_fitness [g1, g2] < tiny_fitness [g2, g2]"
    by simp
  with run show ?thesis by simp
qed

section \<open>Verification: invariants of the genome across generations\<close>

lemma create_gene_Inr:
  assumes "create_gene cfg e s = Inr (g, t)"
  shows "entity_id g = ent_id e \<and> entity_name g = Some (get_or (ent_name e) (ent_id e))
       \<and> day g \<in> set (ga_days cfg) \<and> time g \<in> set (ga_time_slots cfg)
       \<and> room g \<in> set (ga_rooms cfg) \<and> duration g = get_or (ent_duration e) 2"
proof -
  from assms obtain d s1 t' s2 r s3 where
    "random_choice (ga_days cfg) s = Inr (d, s1)"
    "random_choice (ga_time_slots cfg) s1 = Inr (t', s2)"
    "random_choice (ga_rooms cfg) s2 = Inr (r, s3)"
    "g = \<lparr>entity_id = ent_id e, entity_name = Some (get_or (ent_name e) (ent_id e)),
            day = d, time = t', room = r, duration = get_or (ent_duration e) 2\<rparr>"
    by (auto simp: create_gene_def bind_Inr ret_Inr)
  then show ?thesis by (auto dest: random_choice_Inr)
qed

lemma create_individual_Inr:
  assumes "create_individual cfg entities s = Inr (ind, t)"
  shows "list_all2 (\<lambda>e g. entity_id g = ent_id e
            \<and> entity_name g = Some (get_or (ent_name e) (ent_id e))
            \<and> day g \<in> set (ga_days cfg) \<and> time g \<in> set (ga_time_slots cfg)
            \<and> room g \<in> set (ga_rooms cfg) \<and> duration g = get_or (ent_duration e) 2)
          entities ind"
  by (rule mapM_all [where Q = "\<lambda>_. True", OF _ assms [unfolded create_individual_def]])
     (simp_all add: create_gene_Inr)

lemma create_individual_positional:
  assumes "create_individual cfg entities s = Inr (ind, t)"
  shows "positional entities ind"
proof -
  from create_individual_Inr [OF assms]
  have "list_all2 (\<lambda>e g. entity_id g = ent_id e) entities ind"
    by (rule list_all2_mono) simp
  then have "map ent_id entities = map entity_id ind"
    by (induction rule: list_all2_induct) simp_all
  then show ?thesis by (simp add: positional_def)
qed


lemma toolbox_population_positional:
  assumes "toolbox_population cfg entities n s = Inr (pop, t)"
  shows "length pop = nat n \<and> (\<forall>ind \<in> set pop. positional entities ind)"
  by (rule repeatM_all [OF _ assms [unfolded toolbox_population_def]])
     (rule create_individual_positional)






section \<open>Verification: concrete runs of the evolution loop\<close>

lemmas rand_defs = bind_def ret_def raise_def next_draw_def random_choice_def random_random_def
  random_randint_def random_sample2_def half_draw_def

lemmas ga_defs = ga_population_size_def ga_generations_def ga_crossover_prob_def
  ga_mutation_prob_def ga_tournament_size_def ga_elitism_rate_def ga_mutation_strategy_def
  ga_days_def ga_time_slots_def ga_rooms_def get_or_def

lemma tiny_population:
  "toolbox_population tiny_config two_entities (ga_population_size tiny_config)
     (creation_draws @ ds) = Inr ([[g1, g2], [g1, g2]], ds)"
  by (simp add: toolbox_population_def create_individual_def create_gene_def rand_defs ga_defs
        tiny_config_def empty_config_def two_entities_def mk_entity_def g1_def g2_def mk_gene_def
        creation_draws_def numeral_2_eq_2)


lemma random_half: "random_random (half_draw # ds) = Inr (1 / 2, ds)"
  by (simp add: rand_defs half_draw_def)


lemmas op_defs = generation_step_def breed_def selTournament_def fittest_def selBest_def
  elite_count_def py_int_def cxTwoPoint_def splice_def mutate_schedule_def mutate_swap_def
  mutate_shift_def mutate_random_def hof_update_def hof_visit_def

lemma genes_differ: "g1 \<noteq> g2" "g2 \<noteq> g1"
  by (simp_all add: g1_def g2_def mk_gene_def)

lemma swap_gen0:
  "generation_step tiny_config tiny_fitness 0
     \<lparr>population = [[g1, g2], [g1, g2]], hall_of_fame = None, history_log = []\<rparr>
     ([0, 1, 0, 0, 0, 0, 0, 0, half_draw] @ ds)
   = Inr ((\<lparr>population = [[g2, g1], [g1, g2]], hall_of_fame = Some [g1, g2],
           history_log = [\<lparr>generation = 0, max_fitness = 910, min_fitness = 910\<rparr>]\<rparr>, False), ds)"
  by (simp add: op_defs rand_defs ga_defs tiny_fitness_values tiny_config_def empty_config_def
        numeral_2_eq_2 Let_def)


lemma tiny_fitness_more: "tiny_fitness [g1, g1] = 820"
  by (simp add: tiny_fitness_def availability_fitness_def check_availability_def
        g1_def g2_def mk_gene_def)

lemma swap_gen1:
  "generation_step tiny_config tiny_fitness (Suc 0)
     \<lparr>population = [[g2, g1], [g1, g2]], hall_of_fame = Some [g1, g2],
      history_log = [\<lparr>generation = 0, max_fitness = 910, min_fitness = 910\<rparr>]\<rparr>
     ([0, 1, 0, 0, 0, half_draw, half_draw] @ ds)
   = Inr ((\<lparr>population = [[g2, g2], [g2, g1]], hall_of_fame = Some [g1, g2],
           history_log = [\<lparr>generation = 0, max_fitness = 910, min_fitness = 910\<rparr>,
                          \<lparr>generation = 1, max_fitness = 910, min_fitness = 910\<rparr>]\<rparr>, False), ds)"
  by (simp add: op_defs rand_defs ga_defs tiny_fitness_values tiny_config_def empty_config_def
        numeral_2_eq_2 Let_def)

lemma swap_gen2:
  "generation_step tiny_config tiny_fitness (Suc (Suc 0))
     \<lparr>population = [[g2, g2], [g2, g1]], hall_of_fame = Some [g1, g2],
      history_log = [\<lparr>generation = 0, max_fitness = 910, min_fitness = 910\<rparr>,
                     \<lparr>generation = 1, max_fitness = 910, min_fitness = 910\<rparr>]\<rparr> ds
   = Inr ((\<lparr>population = [[g2, g2], [g2, g1]], hall_of_fame = Some [g2, g2],
           history_log = [\<lparr>generation = 0, max_fitness = 910, min_fitness = 910\<rparr>,
                          \<lparr>generation = 1, max_fitness = 910, min_fitness = 910\<rparr>,
                          \<lparr>generation = 2, max_fitness = 1000, min_fitness = 910\<rparr>]\<rparr>, True), ds)"
  using genes_differ
  by (simp add: op_defs rand_defs ga_defs tiny_fitness_values tiny_config_def empty_config_def
        numeral_2_eq_2 Let_def)

lemma evolve_loop_step:
  "generation_step cfg evaluate gen st s = Inr ((st', stop), s') \<Longrightarrow>
   evolve_loop cfg evaluate gen (Suc n) st s
     = (if stop then Inr (st', s') else evolve_loop cfg evaluate (Suc gen) n st' s')"
  by (simp add: bind_def ret_def)


lemma swap_loop3:
  "evolve_loop tiny_config tiny_fitness 0 3
     \<lparr>population = [[g1, g2], [g1, g2]], hall_of_fame = None, history_log = []\<rparr>
     (swap_run_draws @ ds)
   = Inr (\<lparr>population = [[g2, g2], [g2, g1]], hall_of_fame = Some [g2, g2],
           history_log = [\<lparr>generation = 0, max_fitness = 910, min_fitness = 910\<rparr>,
                          \<lparr>generation = 1, max_fitness = 910, min_fitness = 910\<rparr>,
                          \<lparr>generation = 2, max_fitness = 1000, min_fitness = 910\<rparr>]\<rparr>, ds)"
proof -
  have d: "swap_run_draws @ ds
      = [0, 1, 0, 0, 0, 0, 0, 0, half_draw] @ ([0, 1, 0, 0, 0, half_draw, half_draw] @ ds)"
    by (simp add: swap_run_draws_def)
  have n: "evolve_loop tiny_config tiny_fitness 0 3 = evolve_loop tiny_config tiny_fitness 0 (Suc (Suc (Suc 0)))"
    by (simp only: numeral_3_eq_3)
  show ?thesis
    unfolding d n
    by (simp only: evolve_loop_step [OF swap_gen0] evolve_loop_step [OF swap_gen1]
          evolve_loop_step [OF swap_gen2] if_False if_True)
qed


lemma swap_evolve:
  "evolve tiny_config tiny_fitness two_entities (creation_draws @ swap_run_draws)
   = Inr (\<lparr>schedule = [g2, g2], fitness = Some 1000,
           history = [\<lparr>generation = 0, max_fitness = 910, min_fitness = 910\<rparr>,
                      \<lparr>generation = 1, max_fitness = 910, min_fitness = 910\<rparr>,
                      \<lparr>generation = 2, max_fitness = 1000, min_fitness = 910\<rparr>],
           method_used = None, config_used = Some (config_used_of tiny_config),
           gemini_seed = None\<rparr>, [])"
proof -
  have g: "nat (ga_generations tiny_config) = 3"
    by (simp add: ga_defs tiny_config_def empty_config_def)
  show ?thesis
    using swap_loop3 [of "[]"] tiny_population [of swap_run_draws]
    by (simp add: evolve_def bind_def ret_def g tiny_fitness_values)
qed






section \<open>Verification: the swap mutation\<close>











section \<open>Verification: the genome initialiser\<close>

lemma random_choice_eq:
  "xs \<noteq> [] \<Longrightarrow> random_choice xs s = Inr (xs ! (fst (draw s) mod length xs), snd (draw s))"
  by (cases "draw s") (simp add: random_choice_def bind_def next_draw_def ret_def)

lemma random_choice_empty: "random_choice [] s = Inl IndexError"
  by (simp add: random_choice_def raise_def)












section \<open>Verification: evolve and the number of generations\<close>

lemma evolve_Inr:
  assumes "evolve cfg evaluate entities s = Inr (r, t)"
  shows "\<exists>pop s1 st best.
           toolbox_population cfg entities (ga_population_size cfg) s = Inr (pop, s1)
         \<and> evolve_loop cfg evaluate 0 (nat (ga_generations cfg))
              \<lparr>population = pop, hall_of_fame = None, history_log = []\<rparr> s1 = Inr (st, t)
         \<and> hall_of_fame st = Some best
         \<and> r = \<lparr>schedule = best, fitness = Some (evaluate best), history = history_log st,
                 method_used = None, config_used = Some (config_used_of cfg),
                 gemini_seed = None\<rparr>"
  using assms
  by (auto simp: evolve_def bind_Inr ret_Inr raise_Inr split: option.splits)

lemma generation_step_empty:
  "population st = [] \<Longrightarrow> generation_step cfg evaluate gen st s = Inl ValueError"
  by (simp add: generation_step_def raise_def)

lemma evolve_no_generation:
  assumes "ga_generations cfg \<le> 0"
    and "toolbox_population cfg entities (ga_population_size cfg) s = Inr (pop, s1)"
  shows "evolve cfg evaluate entities s = Inl IndexError"
proof -
  have "nat (ga_generations cfg) = 0" using assms(1) by simp
  then show ?thesis using assms(2)
    by (simp add: evolve_def bind_def ret_def raise_def)
qed

lemma evolve_no_generation_fails:
  assumes "ga_generations cfg \<le> 0"
  shows "\<exists>e. evolve cfg evaluate entities s = Inl e"
proof (cases "toolbox_population cfg entities (ga_population_size cfg) s")
  case (Inl e)
  then show ?thesis by (simp add: evolve_def bind_def)
next
  case (Inr p)
  then obtain pop s1 where
    "toolbox_population cfg entities (ga_population_size cfg) s = Inr (pop, s1)"
    by (cases p) auto
  from evolve_no_generation [OF assms this] show ?thesis by blast
qed

text \<open>
  Claim C10. Whenever \<^verbatim>\<open>evolve\<close> returns a result, the configured number of
  generations is at least 1 and so is the population size. With no generation to run
  (\<^verbatim>\<open>generations\<close> zero or negative) \<^verbatim>\<open>evolve\<close> never returns: the hall of fame is
  filled only inside the loop, and once the initial population is built the final
  \<^verbatim>\<open>hof[0]\<close> raises IndexError.
\<close>

theorem evolve_needs_a_generation:
  "(evolve cfg evaluate entities s = Inr (r, t) \<longrightarrow>
      1 \<le> ga_generations cfg \<and> 1 \<le> ga_population_size cfg)
   \<and> (ga_generations cfg \<le> 0 \<longrightarrow>
        (\<exists>e. evolve cfg evaluate entities s = Inl e)
      \<and> (\<forall>pop s1. toolbox_population cfg entities (ga_population_size cfg) s = Inr (pop, s1)
            \<longrightarrow> evolve cfg evaluate entities s = Inl IndexError))"
proof (intro conjI impI allI)
  assume run: "evolve cfg evaluate entities s = Inr (r, t)"
  from evolve_Inr [OF run] obtain pop s1 st best where
    p: "toolbox_population cfg entities (ga_population_size cfg) s = Inr (pop, s1)" and
    l: "evolve_loop cfg evaluate 0 (nat (ga_generations cfg))
              \<lparr>population = pop, hall_of_fame = None, history_log = []\<rparr> s1 = Inr (st, t)" and
    h: "hall_of_fame st = Some best" by blast
  show g: "1 \<le> ga_generations cfg"
  proof (rule ccontr)
    assume "\<not> 1 \<le> ga_generations cfg"
    then have "nat (ga_generations cfg) = 0" by simp
    with l have "st = \<lparr>population = pop, hall_of_fame = None, history_log = []\<rparr>"
      by (simp add: ret_Inr)
    with h show False by simp
  qed
  show "1 \<le> ga_population_size cfg"
  proof (rule ccontr)
    assume "\<not> 1 \<le> ga_population_size cfg"
    then have "nat (ga_population_size cfg) = 0" by simp
    with toolbox_population_positional [OF p] have e: "pop = []" by simp
    from g obtain n where n: "nat (ga_generations cfg) = Suc n"
      by (cases "nat (ga_generations cfg)") auto
    have "generation_step cfg evaluate 0
            \<lparr>population = pop, hall_of_fame = None, history_log = []\<rparr> s1 = Inl ValueError"
      using e by (simp add: generation_step_empty)
    then have "evolve_loop cfg evaluate 0 (Suc n)
            \<lparr>population = pop, hall_of_fame = None, history_log = []\<rparr> s1 = Inl ValueError"
      by (simp add: bind_def)
    with l n show False by simp
  qed
next
  assume "ga_generations cfg \<le> 0"
  then show "\<exists>e. evolve cfg evaluate entities s = Inl e"
    by (rule evolve_no_generation_fails)
next
  fix pop s1
  assume "ga_generations cfg \<le> 0"
    "toolbox_population cfg entities (ga_population_size cfg) s = Inr (pop, s1)"
  then show "evolve cfg evaluate entities s = Inl IndexError"
    by (rule evolve_no_generation)
qed


lemma no_generation_population:
  "toolbox_population no_generation_config two_entities (ga_population_size no_generation_config)
     (creation_draws @ ds) = Inr ([[g1, g2], [g1, g2]], ds)"
  by (simp add: toolbox_population_def create_individual_def create_gene_def rand_defs ga_defs
        no_generation_config_def tiny_config_def empty_config_def two_entities_def mk_entity_def
        g1_def g2_def mk_gene_def creation_draws_def numeral_2_eq_2)

theorem evolve_needs_a_generation_witness:
  "evolve tiny_config tiny_fitness two_entities (creation_draws @ swap_run_draws)
     = Inr (\<lparr>schedule = [g2, g2], fitness = Some 1000,
             history = [\<lparr>generation = 0, max_fitness = 910, min_fitness = 910\<rparr>,
                        \<lparr>generation = 1, max_fitness = 910, min_fitness = 910\<rparr>,
                        \<lparr>generation = 2, max_fitness = 1000, min_fitness = 910\<rparr>],
             method_used = None, config_used = Some (config_used_of tiny_config),
             gemini_seed = None\<rparr>, [])
   \<and> 1 \<le> ga_generations tiny_config \<and> 1 \<le> ga_population_size tiny_config
   \<and> ga_generations no_generation_config \<le> 0
   \<and> toolbox_population no_generation_config two_entities
         (ga_population_size no_generation_config) creation_draws = Inr ([[g1, g2], [g1, g2]], [])
   \<and> evolve no_generation_config tiny_fitness two_entities creation_draws = Inl IndexError"
proof -
  have a: "1 \<le> ga_generations tiny_config \<and> 1 \<le> ga_population_size tiny_config"
    using evolve_needs_a_generation [of tiny_config tiny_fitness two_entities
            "creation_draws @ swap_run_draws"] swap_evolve
    by blast
  have b: "ga_generations no_generation_config \<le> 0"
    by (simp add: ga_defs no_generation_config_def)
  have c: "toolbox_population no_generation_config two_entities
         (ga_population_size no_generation_config) creation_draws = Inr ([[g1, g2], [g1, g2]], [])"
    using no_generation_population [of "[]"] by simp
  have d: "evolve no_generation_config tiny_fitness two_entities creation_draws = Inl IndexError"
    using evolve_needs_a_generation [of no_generation_config tiny_fitness two_entities
            creation_draws] b c
    by blast
  from swap_evolve a b c d show ?thesis by simp
qed

section \<open>Verification: the advisor adapter and the gemini method\<close>

lemma fallback_total:
  assumes "entities = [] \<or> (fallback_days cfg \<noteq> [] \<and> fallback_time_slots cfg \<noteq> []
             \<and> fallback_rooms cfg \<noteq> [])"
  shows "\<exists>fb. generate_fallback_schedule entities cfg = Inr fb \<and> length fb = length entities"
  using assms
proof
  assume "entities = []"
  then show ?thesis by (simp add: generate_fallback_schedule_def)
next
  assume "fallback_days cfg \<noteq> [] \<and> fallback_time_slots cfg \<noteq> [] \<and> fallback_rooms cfg \<noteq> []"
  then show ?thesis using generate_fallback_closed [of cfg entities] by simp
qed

lemma parse_response_cases:
  assumes "fallback_assignments entities cfg = Inr fa"
  shows "parse_response parsed entities cfg
           = (if unusable parsed then Inr fa
              else case parsed of Decoded rows \<Rightarrow>
                     (case valid_rows rows of Inr valid \<Rightarrow> Inr (map Suggested valid)))"
  using assms
  by (cases parsed) (auto simp: parse_response_def try_except_def split: sum.splits)

lemma suggestions_cases:
  assumes "fallback_assignments entities cfg = Inr fa"
  shows "generate_schedule_suggestions reply entities cfg
           = (if advisor_failed reply then Inr fa
              else case reply of Candidate fr (Text (Decoded rows)) \<Rightarrow>
                     (case valid_rows rows of Inr valid \<Rightarrow> Inr (map Suggested valid)))"
proof (cases reply)
  case Raises
  then show ?thesis using assms by (simp add: generate_schedule_suggestions_def try_except_def)
next
  case NoCandidates
  then show ?thesis using assms by (simp add: generate_schedule_suggestions_def try_except_def)
next
  case (Candidate fr rt)
  show ?thesis
  proof (cases rt)
    case NoText
    then show ?thesis using assms Candidate
      by (simp add: generate_schedule_suggestions_def try_except_def)
  next
    case TextRaises
    then show ?thesis using assms Candidate
      by (simp add: generate_schedule_suggestions_def try_except_def)
  next
    case (Text parsed)
    show ?thesis
    proof (cases "fr \<notin> {0, 1}")
      case True
      then show ?thesis using assms Candidate Text
        by (simp add: generate_schedule_suggestions_def try_except_def)
    next
      case False
      then have "generate_schedule_suggestions reply entities cfg
                   = try_except (parse_response parsed entities cfg)
                       (\<lambda>e. fallback_assignments entities cfg)"
        using Candidate Text by (auto simp: generate_schedule_suggestions_def)
      also have "\<dots> = (if unusable parsed then Inr fa
              else case parsed of Decoded rows \<Rightarrow>
                     (case valid_rows rows of Inr valid \<Rightarrow> Inr (map Suggested valid)))"
        unfolding parse_response_cases [OF assms]
        by (cases parsed) (auto simp: try_except_def split: sum.splits)
      finally show ?thesis using Candidate Text False
        by (cases parsed) auto
    qed
  qed
qed

lemma suggestions_total:
  assumes "fallback_assignments entities cfg = Inr fa"
  shows "\<exists>sched. generate_schedule_suggestions reply entities cfg = Inr sched
           \<and> (advisor_failed reply \<longrightarrow> sched = fa)"
proof (cases "advisor_failed reply")
  case True
  then show ?thesis using suggestions_cases [OF assms, of reply] by simp
next
  case False
  then obtain fr rows where r: "reply = Candidate fr (Text (Decoded rows))"
    by (cases reply rule: advisor_failed.cases) (auto elim: unusable.elims)
  with False obtain valid where "valid_rows rows = Inr valid"
    by (cases "valid_rows rows") auto
  then show ?thesis using suggestions_cases [OF assms, of reply] False r by simp
qed


text \<open>
  Claim C6, as the code has it. Let the resource lists the fallback scheduler reads be
  non-empty (or let there be no entity). Then \<^verbatim>\<open>optimize\<close> with method
  \<^verbatim>\<open>gemini\<close> returns a result for every reply of the advisor, with fitness absent and
  an empty history, and the adapter \<^verbatim>\<open>generate_schedule_suggestions\<close> itself returns a
  schedule. When the advisor fails (it raises, the response is blocked or filtered, it
  has no text, the text does not parse, or no row has an entity id) the schedule is the
  output of the round-robin fallback scheduler, whose length is the number of entities.
\<close>

theorem gemini_failure_uses_fallback:
  assumes "entities = [] \<or> (fallback_days cfg \<noteq> [] \<and> fallback_time_slots cfg \<noteq> []
             \<and> fallback_rooms cfg \<noteq> [])"
  shows "\<exists>sched fb.
           generate_fallback_schedule entities cfg = Inr fb \<and> length fb = length entities
         \<and> generate_schedule_suggestions reply entities cfg = Inr sched
         \<and> optimize reply evaluate entities cfg ''gemini'' s
             = Inr \<lparr>schedule = sched, fitness = None, history = [],
                    method_used = Some ''gemini'', config_used = None, gemini_seed = None\<rparr>
         \<and> (advisor_failed reply \<longrightarrow> sched = map Placed fb \<and> length sched = length entities)"
proof -
  from fallback_total [OF assms] obtain fb where
    fb: "generate_fallback_schedule entities cfg = Inr fb" "length fb = length entities" by blast
  then have fa: "fallback_assignments entities cfg = Inr (map Placed fb)"
    by (simp add: fallback_assignments_def)
  from suggestions_total [OF fa, of reply] obtain sched where
    sg: "generate_schedule_suggestions reply entities cfg = Inr sched"
        "advisor_failed reply \<longrightarrow> sched = map Placed fb" by blast
  have "optimize reply evaluate entities cfg ''gemini'' s
             = Inr \<lparr>schedule = sched, fitness = None, history = [],
                    method_used = Some ''gemini'', config_used = None, gemini_seed = None\<rparr>"
    using sg(1) by (simp add: optimize_def optimize_with_gemini_def try_except_def)
  moreover have "advisor_failed reply \<longrightarrow> sched = map Placed fb \<and> length sched = length entities"
    using sg(2) fb(2) by simp
  ultimately show ?thesis using fb sg(1) by blast
qed

lemma small_fallback:
  "generate_fallback_schedule two_entities small_config
     = Inr [\<lparr>entity_id = ''e1'', entity_name = None, day = ''Mon'', time = ''9'', room = ''R1'',
              duration = 1\<rparr>,
            \<lparr>entity_id = ''e2'', entity_name = None, day = ''Mon'', time = ''9'', room = ''R2'',
              duration = 1\<rparr>]"
  by (simp add: generate_fallback_schedule_def fallback_gene_def cyclic_get_def next_slot_def
        fallback_days_def fallback_time_slots_def fallback_rooms_def get_or_def
        small_config_def empty_config_def two_entities_def mk_entity_def)

theorem gemini_failure_uses_fallback_witness:
  "fallback_days small_config \<noteq> [] \<and> fallback_time_slots small_config \<noteq> []
   \<and> fallback_rooms small_config \<noteq> []
   \<and> advisor_failed (Candidate 1 (Text (Decoded [JObj [(''day'', JStr ''Mon'')]])))
   \<and> optimize (Candidate 1 (Text (Decoded [JObj [(''day'', JStr ''Mon'')]]))) tiny_fitness
        two_entities small_config ''gemini'' []
       = Inr \<lparr>schedule =
                [Placed \<lparr>entity_id = ''e1'', entity_name = None, day = ''Mon'', time = ''9'',
                          room = ''R1'', duration = 1\<rparr>,
                 Placed \<lparr>entity_id = ''e2'', entity_name = None, day = ''Mon'', time = ''9'',
                          room = ''R2'', duration = 1\<rparr>],
              fitness = None, history = [], method_used = Some ''gemini'', config_used = None,
              gemini_seed = None\<rparr>
   \<and> length two_entities = 2"
proof -
  have ne: "fallback_days small_config \<noteq> []" "fallback_time_slots small_config \<noteq> []"
    "fallback_rooms small_config \<noteq> []"
    by (simp_all add: fallback_days_def fallback_time_slots_def fallback_rooms_def get_or_def
          small_config_def empty_config_def)
  then have pre: "two_entities = [] \<or> (fallback_days small_config \<noteq> []
      \<and> fallback_time_slots small_config \<noteq> [] \<and> fallback_rooms small_config \<noteq> [])" by simp
  have f: "advisor_failed (Candidate 1 (Text (Decoded [JObj [(''day'', JStr ''Mon'')]])))"
    by simp
  from gemini_failure_uses_fallback [OF pre,
      of "Candidate 1 (Text (Decoded [JObj [(''day'', JStr ''Mon'')]]))" tiny_fitness "[]"]
    f small_fallback
  have "optimize (Candidate 1 (Text (Decoded [JObj [(''day'', JStr ''Mon'')]]))) tiny_fitness
        two_entities small_config ''gemini'' []
       = Inr \<lparr>schedule =
                [Placed \<lparr>entity_id = ''e1'', entity_name = None, day = ''Mon'', time = ''9'',
                          room = ''R1'', duration = 1\<rparr>,
                 Placed \<lparr>entity_id = ''e2'', entity_name = None, day = ''Mon'', time = ''9'',
                          room = ''R2'', duration = 1\<rparr>],
              fitness = None, history = [], method_used = Some ''gemini'', config_used = None,
              gemini_seed = None\<rparr>"
    by auto
  moreover have "length two_entities = 2" by (simp add: two_entities_def)
  ultimately show ?thesis using ne f by simp
qed

text \<open>
  Claim C6 as stated fails when a resource list is empty and there is an entity: the
  fallback scheduler divides by the length of the list, the handlers of
  \<^verbatim>\<open>generate_schedule_suggestions\<close> and of \<^verbatim>\<open>optimize_with_gemini\<close> call the same
  scheduler again, and the ZeroDivisionError reaches the caller of \<^verbatim>\<open>optimize\<close>.
\<close>

theorem gemini_empty_rooms_counterexample:
  "fallback_rooms empty_rooms_config = []
   \<and> advisor_failed NoCandidates
   \<and> generate_schedule_suggestions NoCandidates two_entities empty_rooms_config
       = Inl ZeroDivisionError
   \<and> optimize NoCandidates tiny_fitness two_entities empty_rooms_config ''gemini'' []
       = Inl ZeroDivisionError
   \<and> optimize Raises tiny_fitness two_entities empty_rooms_config ''gemini'' []
       = Inl ZeroDivisionError"
  by (simp add: optimize_def optimize_with_gemini_def generate_schedule_suggestions_def
        try_except_def fallback_assignments_def generate_fallback_schedule_def
        fallback_gene_def cyclic_get_def fallback_days_def fallback_time_slots_def
        fallback_rooms_def get_or_def empty_rooms_config_def small_config_def empty_config_def
        two_entities_def)

section \<open>Verification: empty resource lists\<close>

lemma create_gene_empty:
  assumes "ga_days cfg = [] \<or> ga_time_slots cfg = [] \<or> ga_rooms cfg = []"
  shows "create_gene cfg e s = Inl IndexError"
proof (cases "ga_days cfg = []")
  case True
  then show ?thesis by (simp add: create_gene_def bind_def random_choice_empty)
next
  case d: False
  show ?thesis
  proof (cases "ga_time_slots cfg = []")
    case True
    then show ?thesis using d
      by (simp add: create_gene_def bind_def random_choice_empty random_choice_eq)
  next
    case False
    then have "ga_rooms cfg = []" using assms d by simp
    then show ?thesis using d False
      by (simp add: create_gene_def bind_def random_choice_empty random_choice_eq)
  qed
qed

lemma create_individual_empty:
  assumes "ga_days cfg = [] \<or> ga_time_slots cfg = [] \<or> ga_rooms cfg = []" "entities \<noteq> []"
  shows "create_individual cfg entities s = Inl IndexError"
proof -
  from assms(2) obtain e es where "entities = e # es" by (cases entities) auto
  then show ?thesis
    using create_gene_empty [OF assms(1)] by (simp add: create_individual_def bind_def)
qed

lemma evolve_empty_resources:
  assumes "ga_days cfg = [] \<or> ga_time_slots cfg = [] \<or> ga_rooms cfg = []" "entities \<noteq> []"
    and "1 \<le> ga_population_size cfg"
  shows "evolve cfg evaluate entities s = Inl IndexError"
proof -
  from assms(3) obtain k where "nat (ga_population_size cfg) = Suc k"
    by (cases "nat (ga_population_size cfg)") auto
  then have "toolbox_population cfg entities (ga_population_size cfg) s = Inl IndexError"
    using create_individual_empty [OF assms(1,2)]
    by (simp add: toolbox_population_def bind_def)
  then show ?thesis by (simp add: evolve_def bind_def)
qed

text \<open>
  Claim C7, as the code has it. \<^verbatim>\<open>optimize\<close> does not validate the resource lists and
  has no ConfigurationError. When days, time_slots or rooms is empty, there is at least
  one entity and the population size is positive, the methods \<^verbatim>\<open>genetic\<close> and
  \<^verbatim>\<open>hybrid\<close> fail with IndexError, raised by \<^verbatim>\<open>random.choice\<close> while the first gene of
  the first individual is built: no individual is completed, and the evaluation function
  plays no part in the outcome.
\<close>

theorem empty_resources_raise_index_error:
  assumes "ga_days cfg = [] \<or> ga_time_slots cfg = [] \<or> ga_rooms cfg = []"
    and "entities \<noteq> []" and "1 \<le> ga_population_size cfg"
    and "m = ''genetic'' \<or> m = ''hybrid''"
  shows "create_individual cfg entities s = Inl IndexError
       \<and> optimize reply evaluate entities cfg m s = Inl IndexError"
proof -
  have "evolve cfg evaluate entities s = Inl IndexError"
    by (rule evolve_empty_resources [OF assms(1,2,3)])
  then have "optimize reply evaluate entities cfg m s = Inl IndexError"
    using assms(4)
    by (auto simp: optimize_def optimize_with_ga_def optimize_hybrid_def Let_def)
  then show ?thesis using create_individual_empty [OF assms(1,2)] by simp
qed

theorem empty_resources_raise_index_error_witness:
  "ga_days empty_days_config = [] \<and> two_entities \<noteq> [] \<and> 1 \<le> ga_population_size empty_days_config
   \<and> create_individual empty_days_config two_entities [] = Inl IndexError
   \<and> optimize NoCandidates tiny_fitness two_entities empty_days_config ''genetic'' [] = Inl IndexError
   \<and> optimize NoCandidates tiny_fitness two_entities empty_days_config ''hybrid'' [] = Inl IndexError"
proof -
  have a: "ga_days empty_days_config = []"
    by (simp add: ga_days_def get_or_def empty_days_config_def)
  then have a': "ga_days empty_days_config = [] \<or> ga_time_slots empty_days_config = []
      \<or> ga_rooms empty_days_config = []" by simp
  have b: "two_entities \<noteq> []" by (simp add: two_entities_def)
  have c: "1 \<le> ga_population_size empty_days_config"
    by (simp add: ga_population_size_def get_or_def empty_days_config_def tiny_config_def)
  have g: "''genetic'' = ''genetic'' \<or> ''genetic'' = ''hybrid''" by simp
  have h: "''hybrid'' = ''genetic'' \<or> ''hybrid'' = ''hybrid''" by simp
  from empty_resources_raise_index_error [OF a' b c g, of "[]" NoCandidates tiny_fitness]
       empty_resources_raise_index_error [OF a' b c h, of "[]" NoCandidates tiny_fitness]
       a b c
  show ?thesis by simp
qed

theorem empty_days_accepted_counterexample:
  "days empty_days_config = Some []
   \<and> optimize NoCandidates tiny_fitness [] empty_days_config ''genetic'' []
       = Inr \<lparr>schedule = [], fitness = Some 1000,
              history = [\<lparr>generation = 0, max_fitness = 1000, min_fitness = 1000\<rparr>],
              method_used = Some ''genetic'',
              config_used = Some (config_used_of empty_days_config), gemini_seed = None\<rparr>"
proof -
  have p: "toolbox_population empty_days_config [] (ga_population_size empty_days_config) []
             = Inr ([[], []], [])"
    by (simp add: toolbox_population_def create_individual_def ga_population_size_def get_or_def
          empty_days_config_def tiny_config_def bind_def ret_def numeral_2_eq_2)
  have f: "tiny_fitness [] = 1000"
    by (simp add: tiny_fitness_def availability_fitness_def check_availability_def)
  have g: "generation_step empty_days_config tiny_fitness 0
             \<lparr>population = [[], []], hall_of_fame = None, history_log = []\<rparr> []
           = Inr ((\<lparr>population = [[], []], hall_of_fame = Some [],
                   history_log = [\<lparr>generation = 0, max_fitness = 1000, min_fitness = 1000\<rparr>]\<rparr>,
                  True), [])"
    by (simp add: generation_step_def f hof_update_def hof_visit_def ret_def)
  have n: "nat (ga_generations empty_days_config) = Suc (Suc (Suc 0))"
    by (simp add: ga_generations_def get_or_def empty_days_config_def tiny_config_def)
  have "evolve empty_days_config tiny_fitness [] []
          = Inr (\<lparr>schedule = [], fitness = Some 1000,
              history = [\<lparr>generation = 0, max_fitness = 1000, min_fitness = 1000\<rparr>],
              method_used = None,
              config_used = Some (config_used_of empty_days_config), gemini_seed = None\<rparr>, [])"
    unfolding evolve_def n
    by (simp add: bind_def p evolve_loop_step [OF g] ret_def f del: evolve_loop.simps)
  then show ?thesis
    by (simp add: optimize_def optimize_with_ga_def ga_result_def empty_days_config_def)
qed


text \<open>
  The same configuration under the method \<^verbatim>\<open>gemini\<close>: nothing is validated either; a
  failing advisor leads to the fallback scheduler, which divides by the length of the
  empty list.
\<close>

lemma gemini_empty_days_raises:
  "optimize NoCandidates evaluate two_entities empty_days_config ''gemini'' s
     = Inl ZeroDivisionError"
  by (simp add: optimize_def optimize_with_gemini_def generate_schedule_suggestions_def
        try_except_def fallback_assignments_def generate_fallback_schedule_def
        fallback_gene_def cyclic_get_def fallback_days_def get_or_def
        empty_days_config_def two_entities_def)

end
